theory Spec2Isabelle
  imports Main
begin

section \<open>Data model\<close>

text \<open>
  The manifest splitter (\<^verbatim>\<open>main.go\<close>) reads Kubernetes manifests, validates them and
  writes each resource into a directory named after its namespace. This theory embeds
  the resource model, the decoding loop, the validation functions, the classification
  loop of \<^verbatim>\<open>main\<close> and the file name derivation, and states the properties of the
  specification over them.
\<close>

type_synonym bytes = string

text \<open>
  \<^verbatim>\<open>unstructured.Unstructured\<close> wraps a generic \<^verbatim>\<open>map[string]interface{}\<close>. The program
  reads it only through \<^verbatim>\<open>GetAPIVersion\<close>, \<^verbatim>\<open>GetKind\<close>, \<^verbatim>\<open>GetName\<close>,
  \<^verbatim>\<open>GetNamespace\<close>, \<^verbatim>\<open>IsList\<close> and \<^verbatim>\<open>EachListItem\<close>, and writes it only through
  \<^verbatim>\<open>SetNamespace\<close>; the model keeps exactly these fields. A missing string field
  reads as the empty string, as the getters of the library return it. The field
  \<open>listItems\<close> is \<open>None\<close> when the object has no \<^verbatim>\<open>items\<close> array; a member of the
  array is either a nested object or something else (a scalar, an array).
\<close>

datatype 'a item = Object 'a | NotObject

datatype unstructured =
  Unstructured (GetAPIVersion: string) (GetKind: string) (GetName: string)
    (GetNamespace: string) (listItems: "unstructured item list option")

text \<open>\<^verbatim>\<open>unstructured.Unstructured{}\<close>: the zero value, with no field set.\<close>

definition emptyUnstructured :: unstructured where
  "emptyUnstructured = Unstructured [] [] [] [] None"

text \<open>\<^verbatim>\<open>IsList\<close>: the object carries an \<^verbatim>\<open>items\<close> field that is an array.\<close>

definition IsList :: "unstructured \<Rightarrow> bool" where
  "IsList u = (case listItems u of None \<Rightarrow> False | Some _ \<Rightarrow> True)"

fun SetNamespace :: "string \<Rightarrow> unstructured \<Rightarrow> unstructured" where
  "SetNamespace n (Unstructured av k nm ns its) = Unstructured av k nm n its"

text \<open>
  \<^verbatim>\<open>EachListItem\<close> hands the callback an \<^verbatim>\<open>Unstructured\<close> that shares the member's map,
  so what the callback changes in a member is changed in the list. The model writes
  the members back with \<open>setItems\<close>.
\<close>

fun setItems :: "unstructured item list \<Rightarrow> unstructured \<Rightarrow> unstructured" where
  "setItems its (Unstructured av k nm ns _) = Unstructured av k nm ns (Some its)"

text \<open>The struct \<^verbatim>\<open>resource\<close>; \<^verbatim>\<open>format\<close> is a string type with two constants.\<close>

type_synonym format = string

definition jsonFormat :: format where
  "jsonFormat = ''json''"

definition yamlFormat :: format where
  "yamlFormat = ''yaml''"

record resource =
  idx :: int
  inputFilename :: string
  data :: bytes
  format :: format
  obj :: unstructured
  namespaced :: bool
  listNamespaceName :: string

text \<open>\<^verbatim>\<open>schema.GroupVersionKind\<close> and \<^verbatim>\<open>schema.GroupKind\<close>.\<close>

datatype GroupVersionKind =
  GroupVersionKind (gvkGroup: string) (gvkVersion: string) (gvkKind: string)

datatype GroupKind = GroupKind (Group: string) (Kind: string)

text \<open>
  Errors as values. \<open>EOF\<close> is \<^verbatim>\<open>io.EOF\<close>; \<open>LibraryError\<close> is an error of a reader,
  parser or encoder of the libraries; \<open>ContentNotList\<close> and \<open>ItemNotObject\<close> are the
  errors of \<^verbatim>\<open>EachListItem\<close>; the others are the \<^verbatim>\<open>fmt.Errorf\<close> values of
  \<^verbatim>\<open>main.go\<close>, with the values their messages print.
\<close>

datatype error =
    EOF
  | LibraryError string
  | ContentNotList
  | ItemNotObject
  | MissingNamespace resource
  | NonListResource
  | MultipleNamespaces string "string list"
  | DuplicateResource string string GroupKind

section \<open>Validation\<close>

lemma size_listItems:
  "listItems u = Some its \<Longrightarrow> size_list (size_item size) its < size u"
  by (cases u) simp

text \<open>
  \<^verbatim>\<open>validateResource\<close> and \<^verbatim>\<open>validateResourceList\<close> take a pointer and change the
  resource in place; the model returns the changed resource. \<open>validateListItems\<close> is
  the loop of \<^verbatim>\<open>EachListItem\<close> with the callback of \<^verbatim>\<open>validateResourceList\<close>: the
  set \<^verbatim>\<open>declaredNamespaces\<close> and the variable \<^verbatim>\<open>ns\<close> the closure captures are passed
  along, and the members come back as the callback left them. \<^verbatim>\<open>inner\<close> copies every
  field of \<^verbatim>\<open>r\<close> but \<^verbatim>\<open>obj\<close>; what \<^verbatim>\<open>validateResource\<close> writes into the copy's
  \<^verbatim>\<open>listNamespaceName\<close> is dropped with the copy.
\<close>

function validateResource :: "resource \<Rightarrow> error + resource"
  and validateResourceList :: "resource \<Rightarrow> error + resource"
  and validateListItems ::
    "resource \<Rightarrow> unstructured item list \<Rightarrow> string list \<Rightarrow> string
      \<Rightarrow> error + (unstructured item list \<times> string)"
where
  "validateResource r =
     (if IsList (obj r) then validateResourceList r
      else if namespaced r \<and> GetNamespace (obj r) = [] then Inl (MissingNamespace r)
      else if \<not> namespaced r \<and> GetNamespace (obj r) \<noteq> []
        then Inr (r\<lparr>obj := SetNamespace [] (obj r)\<rparr>)
      else Inr r)"
| "validateResourceList r =
     (case listItems (obj r) of
        None \<Rightarrow> Inl NonListResource
      | Some its \<Rightarrow>
          (case validateListItems r its [] [] of
             Inl e \<Rightarrow> Inl e
           | Inr (its', ns) \<Rightarrow>
               Inr (r\<lparr>obj := setItems its' (obj r), listNamespaceName := ns\<rparr>)))"
| "validateListItems r [] declaredNamespaces ns = Inr ([], ns)"
| "validateListItems r (NotObject # rest) declaredNamespaces ns = Inl ItemNotObject"
| "validateListItems r (Object u # rest) declaredNamespaces ns =
     (let inner = r\<lparr>obj := u\<rparr>;
          declaredNamespaces' = List.insert (GetNamespace (obj inner)) declaredNamespaces
      in if length declaredNamespaces' > 1
           then Inl (MultipleNamespaces (inputFilename r) declaredNamespaces')
         else
           (case validateResource inner of
              Inl e \<Rightarrow> Inl e
            | Inr inner' \<Rightarrow>
                (case validateListItems r rest declaredNamespaces' (GetNamespace u) of
                   Inl e \<Rightarrow> Inl e
                 | Inr (rest', ns') \<Rightarrow> Inr (Object (obj inner') # rest', ns'))))"
  by pat_completeness auto
termination
  by (relation "measure (\<lambda>x. case x of
           Inl r \<Rightarrow> 3 * size (obj r) + 2
         | Inr (Inl r) \<Rightarrow> 3 * size (obj r) + 1
         | Inr (Inr (r, its, d, n)) \<Rightarrow> 3 * size_list (size_item size) its)")
     (auto dest: size_listItems)

text \<open>\<^verbatim>\<open>validateResources\<close>: every resource of a file in turn, stopping at the first error.\<close>

fun validateResources :: "resource list \<Rightarrow> error + resource list" where
  "validateResources [] = Inr []"
| "validateResources (r # rs) =
     (case validateResource r of
        Inl e \<Rightarrow> Inl e
      | Inr r' \<Rightarrow>
          (case validateResources rs of
             Inl e \<Rightarrow> Inl e
           | Inr rs' \<Rightarrow> Inr (r' # rs')))"

section \<open>Validation of all input files\<close>

text \<open>
  \<^verbatim>\<open>GroupVersionKind()\<close> of the library parses \<^verbatim>\<open>apiVersion\<close> with
  \<^verbatim>\<open>schema.ParseGroupVersion\<close>: the empty string and \<^verbatim>\<open>"/"\<close> give the empty group and
  version, a string without a slash is a version of the empty group, a string with one
  slash is \<^verbatim>\<open>group/version\<close>, and more slashes are an error, on which
  \<^verbatim>\<open>GroupVersionKind()\<close> returns the empty value.
\<close>

definition ParseGroupVersion :: "string \<Rightarrow> (string \<times> string) option" where
  "ParseGroupVersion gv =
     (if gv = [] \<or> gv = ''/'' then Some ([], [])
      else if count_list gv (CHR ''/'') = 0 then Some ([], gv)
      else if count_list gv (CHR ''/'') = 1
        then Some (takeWhile (\<lambda>c. c \<noteq> CHR ''/'') gv, tl (dropWhile (\<lambda>c. c \<noteq> CHR ''/'') gv))
      else None)"

definition GroupVersionKindOf :: "unstructured \<Rightarrow> GroupVersionKind" where
  "GroupVersionKindOf u =
     (case ParseGroupVersion (GetAPIVersion u) of
        None \<Rightarrow> GroupVersionKind [] [] []
      | Some (g, v) \<Rightarrow> GroupVersionKind g v (GetKind u))"

definition GroupKindOf :: "GroupVersionKind \<Rightarrow> GroupKind" where
  "GroupKindOf gvk = GroupKind (gvkGroup gvk) (gvkKind gvk)"

text \<open>The local struct \<^verbatim>\<open>namespacedName\<close> of \<^verbatim>\<open>validateResourceFiles\<close>: name, then namespace.\<close>

type_synonym namespacedName = "string \<times> string"

fun alreadyContains :: "namespacedName list \<Rightarrow> namespacedName \<Rightarrow> bool" where
  "alreadyContains [] toFind = False"
| "alreadyContains (e # list) toFind = (if toFind = e then True else alreadyContains list toFind)"

text \<open>
  The inner loop of \<^verbatim>\<open>validateResourceFiles\<close> over the resources of one file. The map
  \<^verbatim>\<open>existingResources\<close> is a function that gives the empty slice for a key it does
  not hold, as a Go map does. The loop reads the map and has no statement that
  writes it, so the model passes it on as it is.
\<close>

fun findDuplicate ::
  "(GroupKind \<Rightarrow> namespacedName list) \<Rightarrow> resource list \<Rightarrow> error option" where
  "findDuplicate existingResources [] = None"
| "findDuplicate existingResources (r # rs) =
     (let gk = GroupKindOf (GroupVersionKindOf (obj r));
          existingNamespacedNames = existingResources gk;
          nn = (GetName (obj r), GetNamespace (obj r))
      in if alreadyContains existingNamespacedNames nn
           then Some (DuplicateResource (GetNamespace (obj r)) (GetName (obj r)) gk)
         else findDuplicate existingResources rs)"

text \<open>
  The outer loop. \<^verbatim>\<open>files\<close> is a Go map from file name to resources; the model takes
  its entries in the order the \<^verbatim>\<open>range\<close> statement visits them, and returns the
  entries with the resources as validation left them.
\<close>

fun validateFilesLoop ::
  "(GroupKind \<Rightarrow> namespacedName list) \<Rightarrow> (string \<times> resource list) list
    \<Rightarrow> error + (string \<times> resource list) list" where
  "validateFilesLoop existingResources [] = Inr []"
| "validateFilesLoop existingResources ((f, resources) # files) =
     (case validateResources resources of
        Inl e \<Rightarrow> Inl e
      | Inr resources' \<Rightarrow>
          (case findDuplicate existingResources resources' of
             Some e \<Rightarrow> Inl e
           | None \<Rightarrow>
               (case validateFilesLoop existingResources files of
                  Inl e \<Rightarrow> Inl e
                | Inr files' \<Rightarrow> Inr ((f, resources') # files'))))"

definition validateResourceFiles ::
  "(string \<times> resource list) list \<Rightarrow> error + (string \<times> resource list) list" where
  "validateResourceFiles files = validateFilesLoop (\<lambda>gk. []) files"

text \<open>
  The same two loops, with a record of the order of their steps: the call of
  \<^verbatim>\<open>validateResources\<close> on a file, and each call of \<^verbatim>\<open>alreadyContains\<close> with the
  resource it is about.
\<close>

datatype event = LocalValidation string | UniquenessCheck string resource

fun findDuplicateTrace ::
  "(GroupKind \<Rightarrow> namespacedName list) \<Rightarrow> string \<Rightarrow> resource list \<Rightarrow> event list \<times> error option"
where
  "findDuplicateTrace existingResources f [] = ([], None)"
| "findDuplicateTrace existingResources f (r # rs) =
     (let gk = GroupKindOf (GroupVersionKindOf (obj r));
          existingNamespacedNames = existingResources gk;
          nn = (GetName (obj r), GetNamespace (obj r))
      in if alreadyContains existingNamespacedNames nn
           then ([UniquenessCheck f r],
                 Some (DuplicateResource (GetNamespace (obj r)) (GetName (obj r)) gk))
         else (case findDuplicateTrace existingResources f rs of
                 (evs, res) \<Rightarrow> (UniquenessCheck f r # evs, res)))"

fun validateFilesTrace ::
  "(GroupKind \<Rightarrow> namespacedName list) \<Rightarrow> (string \<times> resource list) list
    \<Rightarrow> event list \<times> (error + (string \<times> resource list) list)" where
  "validateFilesTrace existingResources [] = ([], Inr [])"
| "validateFilesTrace existingResources ((f, resources) # files) =
     (case validateResources resources of
        Inl e \<Rightarrow> ([LocalValidation f], Inl e)
      | Inr resources' \<Rightarrow>
          (case findDuplicateTrace existingResources f resources' of
             (evs, Some e) \<Rightarrow> (LocalValidation f # evs, Inl e)
           | (evs, None) \<Rightarrow>
               (case validateFilesTrace existingResources files of
                  (evs', Inl e) \<Rightarrow> (LocalValidation f # evs @ evs', Inl e)
                | (evs', Inr files') \<Rightarrow>
                    (LocalValidation f # evs @ evs', Inr ((f, resources') # files')))))"

definition validateResourceFilesTrace ::
  "(string \<times> resource list) list \<Rightarrow> event list \<times> (error + (string \<times> resource list) list)"
where
  "validateResourceFilesTrace files = validateFilesTrace (\<lambda>gk. []) files"

section \<open>Classification and output paths\<close>

text \<open>
  The body of the gathering loop of \<^verbatim>\<open>main\<close>: the key \<^verbatim>\<open>ns\<close> under which a resource
  is appended to \<^verbatim>\<open>outputs\<close>, by the three assignments of the source in their order.
\<close>

definition outputNamespace :: "resource \<Rightarrow> string" where
  "outputNamespace r =
     (let ns = GetNamespace (obj r);
          ns = (if IsList (obj r) then listNamespaceName r else ns);
          ns = (if GetKind (obj r) = ''Namespace'' \<and> GetAPIVersion (obj r) = ''v1''
                then GetName (obj r) else ns)
      in ns)"

fun gatherResources ::
  "(string \<rightharpoonup> resource list) \<Rightarrow> resource list \<Rightarrow> (string \<rightharpoonup> resource list)" where
  "gatherResources outputs [] = outputs"
| "gatherResources outputs (r # rs) =
     (let ns = outputNamespace r;
          list = (case outputs ns of None \<Rightarrow> [] | Some l \<Rightarrow> l)
      in gatherResources (outputs(ns \<mapsto> list @ [r])) rs)"

fun gatherOutputs ::
  "(string \<rightharpoonup> resource list) \<Rightarrow> (string \<times> resource list) list \<Rightarrow> (string \<rightharpoonup> resource list)"
where
  "gatherOutputs outputs [] = outputs"
| "gatherOutputs outputs ((f, resources) # files) =
     gatherOutputs (gatherResources outputs resources) files"

text \<open>
  Paths. \<^verbatim>\<open>filepath.Join\<close> is kept symbolic: a path is the list of the elements that
  were joined, in order (the cleaning of the joined string is not modelled).
\<close>

type_synonym path = "string list"

definition outputDirname :: "string \<Rightarrow> string \<Rightarrow> path" where
  "outputDirname outputDir ns =
     (if ns = [] then [outputDir, ''cluster''] else [outputDir, ''namespaces'', ns])"

definition resourceDir :: "string \<Rightarrow> string \<Rightarrow> resource \<Rightarrow> path" where
  "resourceDir outputDir ns r =
     (if GetKind (obj r) = ''Repo'' \<and> GetAPIVersion (obj r) = ''configmanagement.gke.io/v1''
      then [outputDir, ''system'']
      else outputDirname outputDir ns)"

section \<open>File names\<close>

text \<open>
  \<^verbatim>\<open>filepath.Base\<close>, \<^verbatim>\<open>filepath.Ext\<close> and \<^verbatim>\<open>strings.TrimSuffix\<close> of the Go standard
  library, for the separator \<^verbatim>\<open>/\<close>, and \<^verbatim>\<open>%d\<close> of \<^verbatim>\<open>fmt.Sprintf\<close>.
\<close>

definition lastElement :: "string \<Rightarrow> string" where
  "lastElement p = rev (takeWhile (\<lambda>c. c \<noteq> CHR ''/'') (rev p))"

definition Base :: "string \<Rightarrow> string" where
  "Base p =
     (if p = [] then ''.''
      else (let q = rev (dropWhile (\<lambda>c. c = CHR ''/'') (rev p));
                e = lastElement q
            in if e = [] then ''/'' else e))"

definition Ext :: "string \<Rightarrow> string" where
  "Ext p =
     (let e = lastElement p
      in if CHR ''.'' \<in> set e
           then CHR ''.'' # rev (takeWhile (\<lambda>c. c \<noteq> CHR ''.'') (rev e))
         else [])"

definition TrimSuffix :: "string \<Rightarrow> string \<Rightarrow> string" where
  "TrimSuffix s suffix =
     (if length suffix \<le> length s \<and> drop (length s - length suffix) s = suffix
      then take (length s - length suffix) s else s)"

fun decimal :: "nat \<Rightarrow> string" where
  "decimal n =
     (if n < 10 then [''0123456789'' ! n]
      else decimal (n div 10) @ [''0123456789'' ! (n mod 10)])"

definition formatInt :: "int \<Rightarrow> string" where
  "formatInt i = (if i < 0 then CHR ''-'' # decimal (nat (- i)) else decimal (nat i))"

definition resourceFilename :: "resource \<Rightarrow> string" where
  "resourceFilename r =
     (if IsList (obj r) then
        (let inputFileName = Base (inputFilename r);
             inputFileNameStripped = TrimSuffix inputFileName (Ext inputFileName)
         in GetKind (obj r) @ ''-'' @ formatInt (idx r) @ ''-'' @ inputFileNameStripped
              @ ''.'' @ format r)
      else if GetKind (obj r) = ''Namespace'' \<and> GetAPIVersion (obj r) = ''v1''
        then ''namespace.'' @ format r
      else GetKind (obj r) @ ''-'' @ GetName (obj r) @ ''.'' @ format r)"

section \<open>Decoding\<close>

text \<open>
  The parsers and encoders of the libraries (\<^verbatim>\<open>yaml.Unmarshal\<close>, \<^verbatim>\<open>yaml.Marshal\<close>,
  \<^verbatim>\<open>json.Unmarshal\<close>, \<^verbatim>\<open>json.Marshal\<close>) are parameters of the model.
\<close>

record codecs =
  yamlUnmarshal :: "bytes \<Rightarrow> error + unstructured"
  yamlMarshal :: "unstructured \<Rightarrow> error + bytes"
  jsonUnmarshal :: "bytes \<Rightarrow> error + unstructured"
  jsonMarshal :: "unstructured \<Rightarrow> error + bytes"

text \<open>
  The input stream is what its successive reads return: for a YAML stream the results of
  \<^verbatim>\<open>YAMLReader.Read\<close>, one for each document between the \<^verbatim>\<open>---\<close> separators, and for a
  JSON stream the result of \<^verbatim>\<open>ioutil.ReadAll\<close>. Once the results are used up,
  \<^verbatim>\<open>YAMLReader.Read\<close> returns no bytes and \<^verbatim>\<open>io.EOF\<close>, and \<^verbatim>\<open>ioutil.ReadAll\<close> returns no
  bytes and no error.
\<close>

type_synonym reader = "(bytes \<times> error option) list"

definition yamlReaderRead :: "reader \<Rightarrow> (bytes \<times> error option) \<times> reader" where
  "yamlReaderRead rd = (case rd of [] \<Rightarrow> (([], Some EOF), []) | x # rest \<Rightarrow> (x, rest))"

definition ReadAll :: "reader \<Rightarrow> (bytes \<times> error option) \<times> reader" where
  "ReadAll rd = (case rd of [] \<Rightarrow> (([], None), []) | x # rest \<Rightarrow> (x, rest))"

text \<open>
  A decoder returns the bytes it read and an error, and fills the object it is given;
  the model returns the object and the reader as well.
\<close>

definition DecodeYAML ::
  "codecs \<Rightarrow> reader \<Rightarrow> unstructured \<Rightarrow> (bytes \<times> error option) \<times> unstructured \<times> reader" where
  "DecodeYAML c rd into =
     (case yamlReaderRead rd of
        ((bytes, err), rd') \<Rightarrow>
          if err \<noteq> None \<and> err \<noteq> Some EOF then (([], err), into, rd')
          else if length bytes \<noteq> 0 then
            (case yamlUnmarshal c bytes of
               Inl e \<Rightarrow> (([], Some e), into, rd')
             | Inr u \<Rightarrow> ((bytes, err), u, rd'))
          else ((bytes, err), into, rd'))"

definition DecodeJSON ::
  "codecs \<Rightarrow> reader \<Rightarrow> unstructured \<Rightarrow> (bytes \<times> error option) \<times> unstructured \<times> reader" where
  "DecodeJSON c rd into =
     (case ReadAll rd of
        ((content, err), rd') \<Rightarrow>
          if err \<noteq> None then (([], err), into, rd')
          else if length content = 0 then (([], Some EOF), into, rd')
          else
            (case jsonUnmarshal c content of
               Inl e \<Rightarrow> ((content, Some e), into, rd')
             | Inr u \<Rightarrow> ((content, None), u, rd')))"

text \<open>
  \<^verbatim>\<open>EachListItem\<close> with the callback of \<^verbatim>\<open>decodeResourceManifest\<close>: the callback appends
  to \<^verbatim>\<open>resources\<close> and increments \<^verbatim>\<open>idx\<close> (here \<open>nextIdx\<close>), both captured by the
  closure, and
  \<^verbatim>\<open>EachListItem\<close> stops at the first error and returns it. A resource is built with
  the fields the source sets; \<^verbatim>\<open>namespaced\<close> and \<^verbatim>\<open>listNamespaceName\<close> keep their
  zero values.
\<close>

definition newResource :: "int \<Rightarrow> string \<Rightarrow> bytes \<Rightarrow> format \<Rightarrow> unstructured \<Rightarrow> resource" where
  "newResource i input d fmt u =
     \<lparr>idx = i, inputFilename = input, data = d, format = fmt, obj = u,
      namespaced = False, listNamespaceName = []\<rparr>"

fun expandItems ::
  "(unstructured \<Rightarrow> error + bytes) \<Rightarrow> string \<Rightarrow> format \<Rightarrow> unstructured item list \<Rightarrow> int
    \<Rightarrow> resource list \<Rightarrow> (resource list \<times> int) \<times> error option" where
  "expandItems encode input fmt [] nextIdx resources = ((resources, nextIdx), None)"
| "expandItems encode input fmt (NotObject # rest) nextIdx resources =
     ((resources, nextIdx), Some ItemNotObject)"
| "expandItems encode input fmt (Object u # rest) nextIdx resources =
     (case encode u of
        Inl e \<Rightarrow> ((resources, nextIdx), Some e)
      | Inr d \<Rightarrow>
          expandItems encode input fmt rest (nextIdx + 1)
            (resources @ [newResource nextIdx input d fmt u]))"

definition expandList ::
  "(unstructured \<Rightarrow> error + bytes) \<Rightarrow> string \<Rightarrow> format \<Rightarrow> unstructured \<Rightarrow> int
    \<Rightarrow> resource list \<Rightarrow> (resource list \<times> int) \<times> error option" where
  "expandList encode input fmt u nextIdx resources =
     (case listItems u of
        None \<Rightarrow> ((resources, nextIdx), Some ContentNotList)
      | Some its \<Rightarrow> expandItems encode input fmt its nextIdx resources)"

text \<open>
  The loop of \<^verbatim>\<open>decodeResourceManifest\<close>. \<open>isJSON\<close> is what \<^verbatim>\<open>GuessJSONStream\<close>
  reports and selects decoder, encoder and format; \<open>expandLists\<close> is the flag of the
  command line. The value \<^verbatim>\<open>EachListItem\<close> returns is not read by the source, so the
  model drops the error of \<open>expandList\<close> and goes on with the resources and the index
  the callback left.
\<close>

lemma DecodeYAML_shorter:
  "DecodeYAML c rd into = ((b, None), u, rd') \<Longrightarrow> length rd' < length rd"
  by (cases rd) (auto simp: DecodeYAML_def yamlReaderRead_def split: if_splits sum.splits)

lemma DecodeJSON_shorter:
  "DecodeJSON c rd into = ((b, None), u, rd') \<Longrightarrow> length rd' < length rd"
  by (cases rd) (auto simp: DecodeJSON_def ReadAll_def split: if_splits sum.splits)

function decodeLoop ::
  "codecs \<Rightarrow> bool \<Rightarrow> string \<Rightarrow> bool \<Rightarrow> reader \<Rightarrow> int \<Rightarrow> resource list
    \<Rightarrow> error + resource list" where
  "decodeLoop c expandLists input isJSON rd nextIdx resources =
     (case (if isJSON then DecodeJSON c rd emptyUnstructured
            else DecodeYAML c rd emptyUnstructured) of
        ((bytes, Some e), u, rd') \<Rightarrow> if e = EOF then Inr resources else Inl e
      | ((bytes, None), u, rd') \<Rightarrow>
          if GetAPIVersion u = [] \<or> GetKind u = []
            then decodeLoop c expandLists input isJSON rd' nextIdx resources
          else if expandLists \<and> IsList u then
            (case expandList (if isJSON then jsonMarshal c else yamlMarshal c) input
                    (if isJSON then jsonFormat else yamlFormat) u nextIdx resources of
               ((resources', nextIdx'), err) \<Rightarrow>
                 decodeLoop c expandLists input isJSON rd' nextIdx' resources')
          else
            decodeLoop c expandLists input isJSON rd' (nextIdx + 1)
              (resources @ [newResource nextIdx input bytes
                              (if isJSON then jsonFormat else yamlFormat) u]))"
  by pat_completeness auto
termination
  by (relation "measure (\<lambda>(c, expandLists, input, isJSON, rd, nextIdx, resources). length rd)")
     (auto split: if_splits dest: DecodeYAML_shorter [OF sym] DecodeJSON_shorter [OF sym])

declare decodeLoop.simps [simp del]

definition decodeResourceManifest ::
  "codecs \<Rightarrow> bool \<Rightarrow> string \<Rightarrow> bool \<Rightarrow> reader \<Rightarrow> error + resource list" where
  "decodeResourceManifest c expandLists input isJSON rd =
     decodeLoop c expandLists input isJSON rd 0 []"

text \<open>
  What one document of a stream yields, in the words of the specification: an empty
  document, a document that does not parse and a document without \<^verbatim>\<open>apiVersion\<close> or
  \<^verbatim>\<open>kind\<close> yield nothing; a list, when lists are expanded, yields one pair of
  re-encoded bytes and member for each of its members; every other document yields the
  pair of its raw bytes and its parsed form. \<open>encodable\<close> says that a member is an
  object that the encoder encodes, and \<open>numbered\<close> builds the resources of a file
  from such pairs, with consecutive indices.
\<close>

definition members :: "unstructured \<Rightarrow> unstructured item list" where
  "members u = (case listItems u of None \<Rightarrow> [] | Some its \<Rightarrow> its)"

definition encodedItem :: "(unstructured \<Rightarrow> error + bytes) \<Rightarrow> unstructured item \<Rightarrow> bytes \<times> unstructured" where
  "encodedItem encode it =
     (case it of
        Object v \<Rightarrow> (case encode v of Inr b \<Rightarrow> (b, v) | Inl e \<Rightarrow> ([], v))
      | NotObject \<Rightarrow> ([], emptyUnstructured))"

definition encodable :: "(unstructured \<Rightarrow> error + bytes) \<Rightarrow> unstructured item \<Rightarrow> bool" where
  "encodable encode it =
     (case it of
        Object v \<Rightarrow> (case encode v of Inr b \<Rightarrow> True | Inl e \<Rightarrow> False)
      | NotObject \<Rightarrow> False)"

definition documentYield ::
  "(bytes \<Rightarrow> error + unstructured) \<Rightarrow> (unstructured \<Rightarrow> error + bytes) \<Rightarrow> bool \<Rightarrow> bytes
    \<Rightarrow> (bytes \<times> unstructured) list" where
  "documentYield unmarshal encode expandLists d =
     (if d = [] then []
      else
        (case unmarshal d of
           Inl e \<Rightarrow> []
         | Inr u \<Rightarrow>
             if GetAPIVersion u = [] \<or> GetKind u = [] then []
             else if expandLists \<and> IsList u then map (encodedItem encode) (members u)
             else [(d, u)]))"

fun numbered :: "int \<Rightarrow> string \<Rightarrow> format \<Rightarrow> (bytes \<times> unstructured) list \<Rightarrow> resource list" where
  "numbered i input fmt [] = []"
| "numbered i input fmt ((b, u) # ps) = newResource i input b fmt u # numbered (i + 1) input fmt ps"

declare validateResource.simps [simp del] validateResourceList.simps [simp del]

section \<open>Example resources\<close>

definition exampleConfigMap :: resource where
  "exampleConfigMap =
     \<lparr>idx = 0, inputFilename = ''a.yaml'', data = ''kind: ConfigMap'', format = yamlFormat,
      obj = Unstructured ''v1'' ''ConfigMap'' ''cfg'' [] None, namespaced = True,
      listNamespaceName = []\<rparr>"

definition exampleClusterRole :: resource where
  "exampleClusterRole =
     \<lparr>idx = 1, inputFilename = ''a.yaml'', data = ''kind: ClusterRole'', format = yamlFormat,
      obj = Unstructured ''rbac.authorization.k8s.io/v1'' ''ClusterRole'' ''cr'' ''ns1'' None,
      namespaced = False, listNamespaceName = []\<rparr>"

definition exampleItem :: "string \<Rightarrow> string \<Rightarrow> unstructured" where
  "exampleItem nm ns = Unstructured ''v1'' ''ConfigMap'' nm ns None"

definition exampleList :: "bool \<Rightarrow> unstructured item list \<Rightarrow> resource" where
  "exampleList scoped its =
     \<lparr>idx = 0, inputFilename = ''b.json'', data = ''{}'', format = jsonFormat,
      obj = Unstructured ''v1'' ''List'' [] [] (Some its), namespaced = scoped,
      listNamespaceName = []\<rparr>"

definition homogeneousList :: resource where
  "homogeneousList =
     exampleList False [Object (exampleItem ''x'' ''a''), Object (exampleItem ''y'' ''a'')]"

definition mixedList :: resource where
  "mixedList =
     exampleList False [Object (exampleItem ''x'' ''a''), Object (exampleItem ''y'' ''b'')]"

definition namespacedList :: resource where
  "namespacedList =
     exampleList True [Object (exampleItem ''x'' []), Object (exampleItem ''y'' [])]"

definition lateConflictList :: resource where
  "lateConflictList =
     exampleList True [Object (exampleItem ''x'' []), Object (exampleItem ''y'' ''a'')]"

definition nestedList :: resource where
  "nestedList = exampleList False [Object (Unstructured ''v1'' ''List'' [] ''x'' (Some []))]"

definition exampleDeployment :: "string \<Rightarrow> resource" where
  "exampleDeployment f =
     \<lparr>idx = 0, inputFilename = f, data = ''kind: Deployment'', format = yamlFormat,
      obj = Unstructured ''apps/v1'' ''Deployment'' ''foo'' ''ns1'' None, namespaced = True,
      listNamespaceName = []\<rparr>"

definition exampleNamespace :: resource where
  "exampleNamespace =
     \<lparr>idx = 2, inputFilename = ''a.yaml'', data = ''kind: Namespace'', format = yamlFormat,
      obj = Unstructured ''v1'' ''Namespace'' ''team-a'' ''other'' None, namespaced = False,
      listNamespaceName = []\<rparr>"

definition exampleRepo :: resource where
  "exampleRepo =
     \<lparr>idx = 3, inputFilename = ''a.yaml'', data = ''kind: Repo'', format = yamlFormat,
      obj = Unstructured ''configmanagement.gke.io/v1'' ''Repo'' ''repo'' [] None,
      namespaced = False, listNamespaceName = []\<rparr>"

definition clearedClusterRole :: resource where
  "clearedClusterRole =
     exampleClusterRole
       \<lparr>obj := Unstructured ''rbac.authorization.k8s.io/v1'' ''ClusterRole'' ''cr'' [] None\<rparr>"


text \<open>
  Parsers and encoders for the examples: the parser knows four documents, the encoder
  prints version, kind and name, and the failing encoder fails on the member \<open>c1\<close>.
\<close>

definition exampleDocuments :: "(bytes \<times> unstructured) list" where
  "exampleDocuments =
     [(''kind: ConfigMap'', Unstructured [] ''ConfigMap'' [] [] None),
      (''v1 ConfigMap cfg ns1'', Unstructured ''v1'' ''ConfigMap'' ''cfg'' ''ns1'' None),
      (''v1 ClusterRole cr'',
       Unstructured ''rbac.authorization.k8s.io/v1'' ''ClusterRole'' ''cr'' [] None),
      (''v1 List [c0, c1, c2]'',
       Unstructured ''v1'' ''List'' [] []
         (Some [Object (exampleItem ''c0'' ''ns2''), Object (exampleItem ''c1'' ''ns2''),
                Object (exampleItem ''c2'' ''ns2'')]))]"

definition exampleUnmarshal :: "bytes \<Rightarrow> error + unstructured" where
  "exampleUnmarshal b =
     (case map_of exampleDocuments b of
        None \<Rightarrow> Inl (LibraryError ''cannot parse'')
      | Some u \<Rightarrow> Inr u)"

definition exampleMarshal :: "unstructured \<Rightarrow> error + bytes" where
  "exampleMarshal u = Inr (GetAPIVersion u @ '' '' @ GetKind u @ '' '' @ GetName u)"

definition failingMarshal :: "unstructured \<Rightarrow> error + bytes" where
  "failingMarshal u =
     (if GetName u = ''c1'' then Inl (LibraryError ''unsupported value'') else exampleMarshal u)"

definition exampleCodecs :: codecs where
  "exampleCodecs =
     \<lparr>yamlUnmarshal = exampleUnmarshal, yamlMarshal = exampleMarshal,
      jsonUnmarshal = exampleUnmarshal, jsonMarshal = exampleMarshal\<rparr>"

definition failingCodecs :: codecs where
  "failingCodecs =
     \<lparr>yamlUnmarshal = exampleUnmarshal, yamlMarshal = failingMarshal,
      jsonUnmarshal = exampleUnmarshal, jsonMarshal = failingMarshal\<rparr>"


section \<open>The loop over the members of a list\<close>

text \<open>The set \<^verbatim>\<open>declaredNamespaces\<close> never holds more than one namespace when the loop goes on.\<close>

lemma insert_ok_iff:
  "length d \<le> 1 \<Longrightarrow> (\<not> 1 < length (List.insert x d)) = (set d \<subseteq> {x})"
  by (cases d) (auto simp: List.insert_def split: if_splits)

lemma insert_single:
  "length d \<le> 1 \<Longrightarrow> set d \<subseteq> {x} \<Longrightarrow> List.insert x d = [x]"
  by (cases d) (auto simp: List.insert_def split: if_splits)

lemma insert_conflict:
  "length d \<le> 1 \<Longrightarrow> \<not> set d \<subseteq> {x} \<Longrightarrow>
     \<exists>y. d = [y] \<and> y \<noteq> x \<and> List.insert x d = [x, y]"
  by (cases d) (auto simp: List.insert_def split: if_splits)

text \<open>One step of the loop: the namespace fits and the member validates, the namespace
  is a second one, or the member does not validate.\<close>

lemma validateListItems_step_ok:
  assumes "length d \<le> 1" and "set d \<subseteq> {GetNamespace u}"
    and "validateResource (r\<lparr>obj := u\<rparr>) = Inr i"
  shows "validateListItems r (Object u # rest) d ns =
           (case validateListItems r rest [GetNamespace u] (GetNamespace u) of
              Inl e \<Rightarrow> Inl e
            | Inr (rest', ns') \<Rightarrow> Inr (Object (obj i) # rest', ns'))"
  using assms insert_single [OF assms(1,2)] by (simp add: Let_def)

lemma validateListItems_step_conflict:
  assumes "length d \<le> 1" and "\<not> set d \<subseteq> {GetNamespace u}"
  shows "\<exists>y. d = [y] \<and> y \<noteq> GetNamespace u \<and>
           validateListItems r (Object u # rest) d ns =
           Inl (MultipleNamespaces (inputFilename r) [GetNamespace u, y])"
  using insert_conflict [OF assms] by (auto simp: Let_def)

lemma validateListItems_step_invalid:
  assumes "length d \<le> 1" and "set d \<subseteq> {GetNamespace u}"
    and "validateResource (r\<lparr>obj := u\<rparr>) = Inl e"
  shows "validateListItems r (Object u # rest) d ns = Inl e"
  using assms insert_single [OF assms(1,2)] by (simp add: Let_def)

lemma validateListItems_success_D:
  "validateListItems r its d ns = Inr (its', ns') \<Longrightarrow> length d \<le> 1 \<Longrightarrow>
     NotObject \<notin> set its \<and>
     (\<forall>u. Object u \<in> set its \<longrightarrow>
        set d \<subseteq> {GetNamespace u} \<and> ns' = GetNamespace u \<and>
        (\<exists>i. validateResource (r\<lparr>obj := u\<rparr>) = Inr i)) \<and>
     (its = [] \<longrightarrow> ns' = ns)"
proof (induction its arbitrary: d ns its')
  case Nil
  then show ?case by simp
next
  case (Cons it rest)
  show ?case
  proof (cases it)
    case NotObject
    with Cons.prems show ?thesis by simp
  next
    case (Object u)
    have fits: "set d \<subseteq> {GetNamespace u}"
    proof (rule ccontr)
      assume "\<not> set d \<subseteq> {GetNamespace u}"
      from validateListItems_step_conflict [OF Cons.prems(2) this, of r rest ns] Cons.prems(1) Object
      show False by auto
    qed
    obtain i where i: "validateResource (r\<lparr>obj := u\<rparr>) = Inr i"
    proof (cases "validateResource (r\<lparr>obj := u\<rparr>)")
      case (Inl e)
      from validateListItems_step_invalid [OF Cons.prems(2) fits Inl, of rest ns] Cons.prems(1) Object
      show ?thesis by simp
    next
      case (Inr i)
      then show ?thesis using that by blast
    qed
    from validateListItems_step_ok [OF Cons.prems(2) fits i, of rest ns] Cons.prems(1) Object
    obtain rest' where rest:
      "validateListItems r rest [GetNamespace u] (GetNamespace u) = Inr (rest', ns')"
      by (auto split: sum.splits)
    have IH: "NotObject \<notin> set rest \<and>
       (\<forall>v. Object v \<in> set rest \<longrightarrow>
          set [GetNamespace u] \<subseteq> {GetNamespace v} \<and> ns' = GetNamespace v \<and>
          (\<exists>i. validateResource (r\<lparr>obj := v\<rparr>) = Inr i)) \<and>
       (rest = [] \<longrightarrow> ns' = GetNamespace u)"
      by (rule Cons.IH [OF rest]) simp
    have ns': "ns' = GetNamespace u"
    proof (cases rest)
      case Nil
      with IH show ?thesis by simp
    next
      case (Cons b bs)
      with IH obtain v where "b = Object v" by (cases b) auto
      with Cons IH show ?thesis by simp
    qed
    have "\<And>v. Object v \<in> set (it # rest) \<Longrightarrow>
        set d \<subseteq> {GetNamespace v} \<and> ns' = GetNamespace v \<and>
        (\<exists>i. validateResource (r\<lparr>obj := v\<rparr>) = Inr i)"
    proof -
      fix v assume "Object v \<in> set (it # rest)"
      then consider "v = u" | "Object v \<in> set rest" using Object by auto
      then show "set d \<subseteq> {GetNamespace v} \<and> ns' = GetNamespace v \<and>
        (\<exists>i. validateResource (r\<lparr>obj := v\<rparr>) = Inr i)"
      proof cases
        case 1
        then show ?thesis using fits ns' i by blast
      next
        case 2
        with IH have "GetNamespace u = GetNamespace v" "ns' = GetNamespace v"
          "\<exists>i. validateResource (r\<lparr>obj := v\<rparr>) = Inr i" by auto
        then show ?thesis using fits by simp
      qed
    qed
    moreover have "NotObject \<notin> set (it # rest)" using IH Object by simp
    ultimately show ?thesis by blast
  qed
qed


lemma validateListItems_success_I:
  "length d \<le> 1 \<Longrightarrow> NotObject \<notin> set its \<Longrightarrow>
   (\<forall>u. Object u \<in> set its \<longrightarrow>
      set d \<subseteq> {GetNamespace u} \<and> (\<exists>i. validateResource (r\<lparr>obj := u\<rparr>) = Inr i)) \<Longrightarrow>
   (\<forall>u v. Object u \<in> set its \<and> Object v \<in> set its \<longrightarrow> GetNamespace u = GetNamespace v) \<Longrightarrow>
   \<exists>res. validateListItems r its d ns = Inr res"
proof (induction its arbitrary: d ns)
  case Nil
  show ?case by simp
next
  case (Cons it rest)
  from Cons.prems(2) obtain u where it: "it = Object u" by (cases it) auto
  from Cons.prems(3) it have fits: "set d \<subseteq> {GetNamespace u}"
    and "\<exists>i. validateResource (r\<lparr>obj := u\<rparr>) = Inr i" by auto
  then obtain i where i: "validateResource (r\<lparr>obj := u\<rparr>) = Inr i" by blast
  have "\<exists>res. validateListItems r rest [GetNamespace u] (GetNamespace u) = Inr res"
  proof (rule Cons.IH)
    show "length [GetNamespace u] \<le> 1" by simp
    show "NotObject \<notin> set rest" using Cons.prems(2) by simp
    show "\<forall>v. Object v \<in> set rest \<longrightarrow>
      set [GetNamespace u] \<subseteq> {GetNamespace v} \<and> (\<exists>i. validateResource (r\<lparr>obj := v\<rparr>) = Inr i)"
    proof (intro allI impI)
      fix v assume v: "Object v \<in> set rest"
      with Cons.prems(4) it have "GetNamespace u = GetNamespace v" by simp
      moreover from Cons.prems(3) v have "\<exists>i. validateResource (r\<lparr>obj := v\<rparr>) = Inr i" by simp
      ultimately show "set [GetNamespace u] \<subseteq> {GetNamespace v} \<and>
        (\<exists>i. validateResource (r\<lparr>obj := v\<rparr>) = Inr i)" by simp
    qed
    show "\<forall>v w. Object v \<in> set rest \<and> Object w \<in> set rest \<longrightarrow> GetNamespace v = GetNamespace w"
      using Cons.prems(4) by simp
  qed
  then obtain rest' n' where
    "validateListItems r rest [GetNamespace u] (GetNamespace u) = Inr (rest', n')"
    by fastforce
  with validateListItems_step_ok [OF Cons.prems(1) fits i, of rest ns] it show ?case by simp
qed

lemma validateListItems_items:
  "validateListItems r its d ns = Inr (its', ns') \<Longrightarrow> length d \<le> 1 \<Longrightarrow>
     list_all2 (\<lambda>a b. \<exists>u i. a = Object u \<and> validateResource (r\<lparr>obj := u\<rparr>) = Inr i \<and>
                        b = Object (obj i)) its its'"
proof (induction its arbitrary: d ns its')
  case Nil
  then show ?case by simp
next
  case (Cons it rest)
  from validateListItems_success_D [OF Cons.prems] obtain u i where it: "it = Object u"
    and fits: "set d \<subseteq> {GetNamespace u}"
    and i: "validateResource (r\<lparr>obj := u\<rparr>) = Inr i"
    by (cases it) auto
  from validateListItems_step_ok [OF Cons.prems(2) fits i, of rest ns] Cons.prems(1) it
  obtain rest' where rest:
    "validateListItems r rest [GetNamespace u] (GetNamespace u) = Inr (rest', ns')"
    and its': "its' = Object (obj i) # rest'"
    by (auto split: sum.splits)
  have "list_all2 (\<lambda>a b. \<exists>u i. a = Object u \<and> validateResource (r\<lparr>obj := u\<rparr>) = Inr i \<and>
                        b = Object (obj i)) rest rest'"
    by (rule Cons.IH [OF rest]) simp
  then show ?case using it i its' by auto
qed

section \<open>Validation of a single resource\<close>

text \<open>
  C6. For a resource that is not a list: when it is namespace-scoped and declares no
  namespace, \<^verbatim>\<open>validateResource\<close> returns the error that names the resource; when
  it is not namespace-scoped and declares a namespace, \<^verbatim>\<open>validateResource\<close>
  succeeds and the resource it leaves has the namespace cleared and is otherwise the
  resource it was given.
\<close>

theorem validateResource_namespace_rules:
  assumes "\<not> IsList (obj r)"
  shows "(namespaced r \<and> GetNamespace (obj r) = [] \<longrightarrow>
            validateResource r = Inl (MissingNamespace r)) \<and>
         (\<not> namespaced r \<and> GetNamespace (obj r) \<noteq> [] \<longrightarrow>
            (\<exists>r'. validateResource r = Inr r' \<and> GetNamespace (obj r') = [] \<and>
                  r' = r\<lparr>obj := SetNamespace [] (obj r)\<rparr>))"
  using assms by (cases "obj r") (auto simp: validateResource.simps)

theorem validateResource_namespace_rules_witness:
  "validateResource exampleConfigMap = Inl (MissingNamespace exampleConfigMap) \<and>
   validateResource exampleClusterRole =
     Inr (exampleClusterRole
            \<lparr>obj := Unstructured ''rbac.authorization.k8s.io/v1'' ''ClusterRole'' ''cr'' [] None\<rparr>)"
  using validateResource_namespace_rules [of exampleConfigMap]
    validateResource_namespace_rules [of exampleClusterRole]
  by (simp add: exampleConfigMap_def exampleClusterRole_def IsList_def validateResource.simps)

text \<open>
  C9. For a resource that is neither namespace-scoped nor a list, \<^verbatim>\<open>validateResource\<close>
  succeeds, a second application to its result succeeds and leaves that result as it
  is, and on a resource whose namespace is already empty the first application
  changes nothing.
\<close>

theorem validateResource_idempotent:
  assumes "\<not> namespaced r" and "\<not> IsList (obj r)"
  shows "\<exists>r'. validateResource r = Inr r' \<and> validateResource r' = Inr r' \<and>
           (GetNamespace (obj r) = [] \<longrightarrow> r' = r)"
  using assms by (cases "obj r") (auto simp: validateResource.simps IsList_def)

theorem validateResource_idempotent_witness:
  "validateResource exampleClusterRole =
     Inr (exampleClusterRole
            \<lparr>obj := Unstructured ''rbac.authorization.k8s.io/v1'' ''ClusterRole'' ''cr'' [] None\<rparr>) \<and>
   validateResource
     (exampleClusterRole
        \<lparr>obj := Unstructured ''rbac.authorization.k8s.io/v1'' ''ClusterRole'' ''cr'' [] None\<rparr>) =
     Inr (exampleClusterRole
            \<lparr>obj := Unstructured ''rbac.authorization.k8s.io/v1'' ''ClusterRole'' ''cr'' [] None\<rparr>)"
  using validateResource_idempotent [of exampleClusterRole]
  by (simp add: exampleClusterRole_def IsList_def validateResource.simps)

section \<open>Validation of a list\<close>

lemmas validate_eval = validateResource.simps validateResourceList.simps IsList_def Let_def
  List.insert_def

lemma validateResource_list:
  "listItems (obj r) = Some its \<Longrightarrow>
   validateResource r =
     (case validateListItems r its [] [] of
        Inl e \<Rightarrow> Inl e
      | Inr (its', ns) \<Rightarrow> Inr (r\<lparr>obj := setItems its' (obj r), listNamespaceName := ns\<rparr>))"
  by (simp add: validateResource.simps validateResourceList.simps IsList_def)

lemma validateListItems_obj_irrelevant:
  "validateListItems (r\<lparr>obj := x\<rparr>) its d ns = validateListItems r its d ns"
proof (induction its arbitrary: d ns)
  case Nil
  show ?case by simp
next
  case (Cons it rest)
  show ?case
  proof (cases it)
    case NotObject
    then show ?thesis by simp
  next
    case (Object u)
    then show ?thesis by (simp add: Let_def Cons.IH cong: sum.case_cong)
  qed
qed

lemma setItems_fields [simp]:
  "GetNamespace (setItems its u) = GetNamespace u"
  "GetKind (setItems its u) = GetKind u"
  "GetAPIVersion (setItems its u) = GetAPIVersion u"
  "GetName (setItems its u) = GetName u"
  "listItems (setItems its u) = Some its"
  by (cases u; simp)+

lemma SetNamespace_fields [simp]:
  "GetNamespace (SetNamespace n u) = n"
  "GetKind (SetNamespace n u) = GetKind u"
  "GetAPIVersion (SetNamespace n u) = GetAPIVersion u"
  "GetName (SetNamespace n u) = GetName u"
  "listItems (SetNamespace n u) = listItems u"
  by (cases u; simp)+

lemma setItems_SetNamespace:
  "setItems its (SetNamespace n u) = SetNamespace n (setItems its u)"
  by (cases u) simp

lemma validateResource_cluster_item:
  "\<not> namespaced r \<Longrightarrow> \<not> IsList u \<Longrightarrow>
     validateResource (r\<lparr>obj := u\<rparr>) = Inr (r\<lparr>obj := SetNamespace [] u\<rparr>)"
  by (cases u) (auto simp: validateResource.simps)

text \<open>
  The conflict of namespaces is found at the first member whose namespace differs from
  that of the members before it, and before that member is validated itself.
\<close>

lemma validateListItems_prefix_conflict:
  "length d \<le> 1 \<Longrightarrow> set d \<subseteq> {a} \<Longrightarrow> d \<noteq> [] \<or> pre \<noteq> [] \<Longrightarrow>
   (\<forall>it \<in> set pre. \<exists>u i. it = Object u \<and> GetNamespace u = a \<and>
        validateResource (r\<lparr>obj := u\<rparr>) = Inr i) \<Longrightarrow>
   GetNamespace v \<noteq> a \<Longrightarrow>
   validateListItems r (pre @ Object v # post) d ns =
     Inl (MultipleNamespaces (inputFilename r) [GetNamespace v, a])"
proof (induction pre arbitrary: d ns)
  case Nil
  from Nil.prems(1,2,3) have d: "d = [a]" by (cases d) auto
  then have "\<not> set d \<subseteq> {GetNamespace v}" using Nil.prems(5) by auto
  from validateListItems_step_conflict [OF Nil.prems(1) this, of r post ns] d
  show ?case by simp
next
  case (Cons it pre)
  from Cons.prems(4) obtain u i where it: "it = Object u" and a: "GetNamespace u = a"
    and i: "validateResource (r\<lparr>obj := u\<rparr>) = Inr i" by auto
  have fits: "set d \<subseteq> {GetNamespace u}" using Cons.prems(2) a by simp
  have "validateListItems r (pre @ Object v # post) [a] a =
          Inl (MultipleNamespaces (inputFilename r) [GetNamespace v, a])"
  proof (rule Cons.IH)
    show "length [a] \<le> 1" by simp
    show "set [a] \<subseteq> {a}" by simp
    show "[a] \<noteq> [] \<or> pre \<noteq> []" by simp
    show "\<forall>it \<in> set pre. \<exists>u i. it = Object u \<and> GetNamespace u = a \<and>
        validateResource (r\<lparr>obj := u\<rparr>) = Inr i" using Cons.prems(4) by simp
    show "GetNamespace v \<noteq> a" by (rule Cons.prems(5))
  qed
  with validateListItems_step_ok [OF Cons.prems(1) fits i, of "pre @ Object v # post" ns] it a
  show ?case by simp
qed

lemma validateResource_first_conflict:
  assumes "listItems (obj r) = Some (pre @ Object v # post)" and "pre \<noteq> []"
    and "\<forall>it \<in> set pre. \<exists>u i. it = Object u \<and> GetNamespace u = a \<and>
           validateResource (r\<lparr>obj := u\<rparr>) = Inr i"
    and "GetNamespace v \<noteq> a"
  shows "validateResource r = Inl (MultipleNamespaces (inputFilename r) [GetNamespace v, a])"
proof -
  have "validateListItems r (pre @ Object v # post) [] [] =
     Inl (MultipleNamespaces (inputFilename r) [GetNamespace v, a])"
    by (rule validateListItems_prefix_conflict) (use assms in simp_all)
  with validateResource_list [OF assms(1)] show ?thesis by simp
qed

text \<open>
  C5, as the code has it. For a resource with an \<^verbatim>\<open>items\<close> array, validation succeeds
  exactly when every member is an object, all members declare one and the same
  namespace, and every member passes \<^verbatim>\<open>validateResource\<close> itself, as a copy of the
  list resource with the member as its object. On success \<^verbatim>\<open>listNamespaceName\<close> is
  the namespace the members declare, and the empty string for a list without members.
  When a member declares another namespace than the members before it, which are
  objects that pass on their own, the result is the error that carries the input file
  name and the two conflicting namespaces, whether or not that member would pass.
\<close>

theorem validateResourceList_homogeneity:
  assumes "listItems (obj r) = Some its"
  shows "((\<exists>r'. validateResource r = Inr r') \<longleftrightarrow>
            NotObject \<notin> set its \<and>
            (\<forall>u v. Object u \<in> set its \<and> Object v \<in> set its \<longrightarrow> GetNamespace u = GetNamespace v) \<and>
            (\<forall>u. Object u \<in> set its \<longrightarrow> (\<exists>i. validateResource (r\<lparr>obj := u\<rparr>) = Inr i))) \<and>
         (\<forall>r'. validateResource r = Inr r' \<longrightarrow>
            (its = [] \<longrightarrow> listNamespaceName r' = []) \<and>
            (\<forall>u. Object u \<in> set its \<longrightarrow> listNamespaceName r' = GetNamespace u)) \<and>
         (\<forall>pre v post a.
            its = pre @ Object v # post \<and> pre \<noteq> [] \<and>
            (\<forall>it \<in> set pre. \<exists>u i. it = Object u \<and> GetNamespace u = a \<and>
                validateResource (r\<lparr>obj := u\<rparr>) = Inr i) \<and>
            GetNamespace v \<noteq> a \<longrightarrow>
            validateResource r = Inl (MultipleNamespaces (inputFilename r) [GetNamespace v, a]))"
proof (intro conjI allI impI)
  let ?ok = "NotObject \<notin> set its \<and>
            (\<forall>u v. Object u \<in> set its \<and> Object v \<in> set its \<longrightarrow> GetNamespace u = GetNamespace v) \<and>
            (\<forall>u. Object u \<in> set its \<longrightarrow> (\<exists>i. validateResource (r\<lparr>obj := u\<rparr>) = Inr i))"
  note eq = validateResource_list [OF assms]
  show "(\<exists>r'. validateResource r = Inr r') \<longleftrightarrow> ?ok"
  proof
    assume "\<exists>r'. validateResource r = Inr r'"
    then obtain its' ns' where v: "validateListItems r its [] [] = Inr (its', ns')"
      using eq by (auto split: sum.splits)
    have len: "length ([]::string list) \<le> 1" by simp
    note D = validateListItems_success_D [OF v len]
    have d: "NotObject \<notin> set its"
      "\<And>u. Object u \<in> set its \<Longrightarrow> ns' = GetNamespace u"
      "\<And>u. Object u \<in> set its \<Longrightarrow> \<exists>i. validateResource (r\<lparr>obj := u\<rparr>) = Inr i"
      using D by blast+
    show ?ok
    proof (intro conjI allI impI)
      show "NotObject \<notin> set its" by (rule d(1))
      show "GetNamespace u = GetNamespace v" if "Object u \<in> set its \<and> Object v \<in> set its" for u v
        using d(2) [of u] d(2) [of v] that by blast
      show "\<exists>i. validateResource (r\<lparr>obj := u\<rparr>) = Inr i" if "Object u \<in> set its" for u
        using d(3) that by blast
    qed
  next
    assume ok: ?ok
    have "\<exists>res. validateListItems r its [] [] = Inr res"
    proof (rule validateListItems_success_I)
      show "length ([]::string list) \<le> 1" by simp
      show "NotObject \<notin> set its" using ok by blast
      have "\<forall>u. Object u \<in> set its \<longrightarrow> (\<exists>i. validateResource (r\<lparr>obj := u\<rparr>) = Inr i)"
        using ok by blast
      then show "\<forall>u. Object u \<in> set its \<longrightarrow>
        set [] \<subseteq> {GetNamespace u} \<and> (\<exists>i. validateResource (r\<lparr>obj := u\<rparr>) = Inr i)"
        by simp
      show "\<forall>u v. Object u \<in> set its \<and> Object v \<in> set its \<longrightarrow> GetNamespace u = GetNamespace v"
        using ok by blast
    qed
    then show "\<exists>r'. validateResource r = Inr r'"
      using eq by (auto split: sum.splits)
  qed
next
  fix r' assume r': "validateResource r = Inr r'"
  then obtain its' ns' where v: "validateListItems r its [] [] = Inr (its', ns')"
    and l: "listNamespaceName r' = ns'"
    using validateResource_list [OF assms] by (auto split: sum.splits)
  have len: "length ([]::string list) \<le> 1" by simp
  note D = validateListItems_success_D [OF v len]
  have d: "\<And>u. Object u \<in> set its \<Longrightarrow> ns' = GetNamespace u" "its = [] \<Longrightarrow> ns' = []"
    using D by blast+
  { assume "its = []" then show "listNamespaceName r' = []" using d(2) l by blast }
  { fix u assume "Object u \<in> set its"
    then show "listNamespaceName r' = GetNamespace u" using d(1) [of u] l by blast }
next
  fix pre v post a
  assume h: "its = pre @ Object v # post \<and> pre \<noteq> [] \<and>
            (\<forall>it \<in> set pre. \<exists>u i. it = Object u \<and> GetNamespace u = a \<and>
                validateResource (r\<lparr>obj := u\<rparr>) = Inr i) \<and>
            GetNamespace v \<noteq> a"
  show "validateResource r = Inl (MultipleNamespaces (inputFilename r) [GetNamespace v, a])"
  proof (rule validateResource_first_conflict)
    show "listItems (obj r) = Some (pre @ Object v # post)" using assms h by simp
    show "pre \<noteq> []" using h by blast
    show "\<forall>it \<in> set pre. \<exists>u i. it = Object u \<and> GetNamespace u = a \<and>
           validateResource (r\<lparr>obj := u\<rparr>) = Inr i" using h by blast
    show "GetNamespace v \<noteq> a" using h by blast
  qed
qed

theorem validateResourceList_homogeneity_witness:
  "(\<exists>r'. validateResource homogeneousList = Inr r' \<and> listNamespaceName r' = ''a'') \<and>
   validateResource mixedList = Inl (MultipleNamespaces ''b.json'' [''b'', ''a''])"
proof -
  have its: "listItems (obj homogeneousList) =
      Some [Object (exampleItem ''x'' ''a''), Object (exampleItem ''y'' ''a'')]"
    by (simp add: homogeneousList_def exampleList_def)
  have ok: "\<exists>r'. validateResource homogeneousList = Inr r'"
    by (simp add: homogeneousList_def exampleList_def exampleItem_def validate_eval)
  have "\<forall>r'. validateResource homogeneousList = Inr r' \<longrightarrow>
          listNamespaceName r' = GetNamespace (exampleItem ''x'' ''a'')"
    using validateResourceList_homogeneity [OF its] by simp
  with ok have "\<exists>r'. validateResource homogeneousList = Inr r' \<and>
      listNamespaceName r' = GetNamespace (exampleItem ''x'' ''a'')" by blast
  then have 1: "\<exists>r'. validateResource homogeneousList = Inr r' \<and> listNamespaceName r' = ''a''"
    by (simp add: exampleItem_def)
  have mixed: "listItems (obj mixedList) =
      Some [Object (exampleItem ''x'' ''a''), Object (exampleItem ''y'' ''b'')]"
    by (simp add: mixedList_def exampleList_def)
  have first: "validateResource (mixedList\<lparr>obj := exampleItem ''x'' ''a''\<rparr>) =
      Inr (mixedList\<lparr>obj := exampleItem ''x'' []\<rparr>)"
    by (simp add: mixedList_def exampleList_def exampleItem_def validate_eval)
  have "[Object (exampleItem ''x'' ''a''), Object (exampleItem ''y'' ''b'')] =
          [Object (exampleItem ''x'' ''a'')] @ Object (exampleItem ''y'' ''b'') # [] \<and>
        [Object (exampleItem ''x'' ''a'')] \<noteq> [] \<and>
        (\<forall>it \<in> set [Object (exampleItem ''x'' ''a'')].
            \<exists>u i. it = Object u \<and> GetNamespace u = ''a'' \<and>
              validateResource (mixedList\<lparr>obj := u\<rparr>) = Inr i) \<and>
        GetNamespace (exampleItem ''y'' ''b'') \<noteq> ''a''"
    using first by (simp add: exampleItem_def)
  with validateResourceList_homogeneity [OF mixed]
  have "validateResource mixedList =
      Inl (MultipleNamespaces (inputFilename mixedList)
             [GetNamespace (exampleItem ''y'' ''b''), ''a''])"
    by blast
  then have 2: "validateResource mixedList = Inl (MultipleNamespaces ''b.json'' [''b'', ''a''])"
    by (simp add: mixedList_def exampleList_def exampleItem_def)
  from 1 2 show ?thesis by simp
qed

text \<open>
  The claim as stated fails. The two members of \<open>namespacedList\<close> declare one single
  namespace, the empty one, and validation of the list fails, because the list is
  marked namespace-scoped and each member is validated with that mark. The members of
  \<open>lateConflictList\<close> declare two namespaces, and the error is not the one of the
  conflict, because the first member fails before the second is looked at.
\<close>

theorem validateResourceList_homogeneity_counterexample:
  "listItems (obj namespacedList) =
     Some [Object (exampleItem ''x'' []), Object (exampleItem ''y'' [])] \<and>
   validateResource namespacedList =
     Inl (MissingNamespace (namespacedList\<lparr>obj := exampleItem ''x'' []\<rparr>)) \<and>
   listItems (obj lateConflictList) =
     Some [Object (exampleItem ''x'' []), Object (exampleItem ''y'' ''a'')] \<and>
   validateResource lateConflictList =
     Inl (MissingNamespace (lateConflictList\<lparr>obj := exampleItem ''x'' []\<rparr>))"
  by (simp add: namespacedList_def lateConflictList_def exampleList_def exampleItem_def
      validate_eval)

text \<open>
  C10, as the code has it. For a resource with an \<^verbatim>\<open>items\<close> array that passes
  validation: its own namespace is as it was; validation of the same resource with
  any other namespace of its own succeeds as well, with the same result but for that
  namespace; \<^verbatim>\<open>listNamespaceName\<close> is the namespace a member declared before
  validation. When the list is not namespace-scoped and every member declares \<open>x\<close>,
  \<^verbatim>\<open>listNamespaceName\<close> is \<open>x\<close>, every member that has no \<^verbatim>\<open>items\<close> array of its own
  comes back with its namespace cleared, and the key under which \<^verbatim>\<open>main\<close> files the
  list is \<open>x\<close> unless the list has kind \<^verbatim>\<open>Namespace\<close> and version \<^verbatim>\<open>v1\<close>.
\<close>

theorem list_namespace_handling:
  assumes "listItems (obj r) = Some its" and "validateResource r = Inr r'"
  shows "GetNamespace (obj r') = GetNamespace (obj r) \<and>
         (\<forall>n. validateResource (r\<lparr>obj := SetNamespace n (obj r)\<rparr>) =
                Inr (r'\<lparr>obj := SetNamespace n (obj r')\<rparr>)) \<and>
         (\<forall>u. Object u \<in> set its \<longrightarrow> listNamespaceName r' = GetNamespace u) \<and>
         (\<not> namespaced r \<and> its \<noteq> [] \<and> (\<forall>u. Object u \<in> set its \<longrightarrow> GetNamespace u = x) \<longrightarrow>
            listNamespaceName r' = x \<and>
            (\<exists>its'. listItems (obj r') = Some its' \<and>
               list_all2 (\<lambda>a b. \<exists>u u'. a = Object u \<and> b = Object u' \<and>
                                  (\<not> IsList u \<longrightarrow> u' = SetNamespace [] u)) its its') \<and>
            (\<not> (GetKind (obj r) = ''Namespace'' \<and> GetAPIVersion (obj r) = ''v1'') \<longrightarrow>
               outputNamespace r' = x))"
proof -
  from assms obtain its' ns' where v: "validateListItems r its [] [] = Inr (its', ns')"
    and r': "r' = r\<lparr>obj := setItems its' (obj r), listNamespaceName := ns'\<rparr>"
    using validateResource_list [OF assms(1)] by (auto split: sum.splits)
  have len: "length ([]::string list) \<le> 1" by simp
  note D = validateListItems_success_D [OF v len]
  have no: "NotObject \<notin> set its" using D by blast
  have nsd: "\<And>u. Object u \<in> set its \<Longrightarrow> ns' = GetNamespace u" using D by blast
  have own: "GetNamespace (obj r') = GetNamespace (obj r)" by (simp add: r')
  have unch: "validateResource (r\<lparr>obj := SetNamespace n (obj r)\<rparr>) =
                Inr (r'\<lparr>obj := SetNamespace n (obj r')\<rparr>)" for n
  proof -
    have "listItems (obj (r\<lparr>obj := SetNamespace n (obj r)\<rparr>)) = Some its"
      using assms(1) by simp
    from validateResource_list [OF this] v
    show ?thesis by (simp add: validateListItems_obj_irrelevant r' setItems_SetNamespace)
  qed
  have declared: "listNamespaceName r' = GetNamespace u" if "Object u \<in> set its" for u
    using nsd [OF that] by (simp add: r')
  have concl: "listNamespaceName r' = x \<and>
            (\<exists>its'. listItems (obj r') = Some its' \<and>
               list_all2 (\<lambda>a b. \<exists>u u'. a = Object u \<and> b = Object u' \<and>
                                  (\<not> IsList u \<longrightarrow> u' = SetNamespace [] u)) its its') \<and>
            (\<not> (GetKind (obj r) = ''Namespace'' \<and> GetAPIVersion (obj r) = ''v1'') \<longrightarrow>
               outputNamespace r' = x)"
    if h: "\<not> namespaced r \<and> its \<noteq> [] \<and> (\<forall>u. Object u \<in> set its \<longrightarrow> GetNamespace u = x)"
  proof -
    from h obtain it rest where its: "its = it # rest" by (cases its) auto
    with no obtain u where "it = Object u" by (cases it) auto
    with its have mem: "Object u \<in> set its" by simp
    with h have "GetNamespace u = x" by blast
    with declared [OF mem] have l: "listNamespaceName r' = x" by simp
    have "list_all2 (\<lambda>a b. \<exists>u i. a = Object u \<and> validateResource (r\<lparr>obj := u\<rparr>) = Inr i \<and>
                        b = Object (obj i)) its its'"
      by (rule validateListItems_items [OF v len])
    then have "list_all2 (\<lambda>a b. \<exists>u u'. a = Object u \<and> b = Object u' \<and>
                                  (\<not> IsList u \<longrightarrow> u' = SetNamespace [] u)) its its'"
    proof (rule list_all2_mono)
      fix a b
      assume "\<exists>u i. a = Object u \<and> validateResource (r\<lparr>obj := u\<rparr>) = Inr i \<and> b = Object (obj i)"
      then obtain u i where a: "a = Object u" and i: "validateResource (r\<lparr>obj := u\<rparr>) = Inr i"
        and b: "b = Object (obj i)" by blast
      have "\<not> IsList u \<longrightarrow> obj i = SetNamespace [] u"
      proof
        assume "\<not> IsList u"
        from validateResource_cluster_item [OF _ this, of r] h i show "obj i = SetNamespace [] u"
          by simp
      qed
      with a b show "\<exists>u u'. a = Object u \<and> b = Object u' \<and>
                                  (\<not> IsList u \<longrightarrow> u' = SetNamespace [] u)" by blast
    qed
    moreover have "listItems (obj r') = Some its'" by (simp add: r')
    moreover have "outputNamespace r' = x"
      if "\<not> (GetKind (obj r) = ''Namespace'' \<and> GetAPIVersion (obj r) = ''v1'')"
      using that l by (auto simp: outputNamespace_def Let_def IsList_def r')
    ultimately show ?thesis using l by blast
  qed
  show ?thesis
  proof (intro conjI allI impI)
    show "GetNamespace (obj r') = GetNamespace (obj r)" by (rule own)
    show "validateResource (r\<lparr>obj := SetNamespace n (obj r)\<rparr>) =
                Inr (r'\<lparr>obj := SetNamespace n (obj r')\<rparr>)" for n by (rule unch)
    show "listNamespaceName r' = GetNamespace u" if "Object u \<in> set its" for u
      by (rule declared [OF that])
  next
    assume h: "\<not> namespaced r \<and> its \<noteq> [] \<and> (\<forall>u. Object u \<in> set its \<longrightarrow> GetNamespace u = x)"
    from concl [OF h] show "listNamespaceName r' = x" by blast
    from concl [OF h] show "\<exists>its'. listItems (obj r') = Some its' \<and>
               list_all2 (\<lambda>a b. \<exists>u u'. a = Object u \<and> b = Object u' \<and>
                                  (\<not> IsList u \<longrightarrow> u' = SetNamespace [] u)) its its'" by blast
    assume k: "\<not> (GetKind (obj r) = ''Namespace'' \<and> GetAPIVersion (obj r) = ''v1'')"
    from concl [OF h] k show "outputNamespace r' = x" by blast
  qed
qed


theorem list_namespace_handling_witness:
  "validateResource homogeneousList =
     Inr (homogeneousList
            \<lparr>obj := Unstructured ''v1'' ''List'' [] []
                      (Some [Object (exampleItem ''x'' []), Object (exampleItem ''y'' [])]),
             listNamespaceName := ''a''\<rparr>) \<and>
   outputNamespace
     (homogeneousList
        \<lparr>obj := Unstructured ''v1'' ''List'' [] []
                  (Some [Object (exampleItem ''x'' []), Object (exampleItem ''y'' [])]),
         listNamespaceName := ''a''\<rparr>) = ''a''"
proof -
  let ?r' = "homogeneousList
        \<lparr>obj := Unstructured ''v1'' ''List'' [] []
                  (Some [Object (exampleItem ''x'' []), Object (exampleItem ''y'' [])]),
         listNamespaceName := ''a''\<rparr>"
  have its: "listItems (obj homogeneousList) =
      Some [Object (exampleItem ''x'' ''a''), Object (exampleItem ''y'' ''a'')]"
    by (simp add: homogeneousList_def exampleList_def)
  have ev: "validateResource homogeneousList = Inr ?r'"
    by (simp add: homogeneousList_def exampleList_def exampleItem_def validate_eval)
  have "\<not> namespaced homogeneousList \<and>
        [Object (exampleItem ''x'' ''a''), Object (exampleItem ''y'' ''a'')] \<noteq> [] \<and>
        (\<forall>u. Object u \<in> set [Object (exampleItem ''x'' ''a''), Object (exampleItem ''y'' ''a'')]
           \<longrightarrow> GetNamespace u = ''a'')"
    by (auto simp: homogeneousList_def exampleList_def exampleItem_def)
  moreover have "\<not> (GetKind (obj homogeneousList) = ''Namespace'' \<and>
                    GetAPIVersion (obj homogeneousList) = ''v1'')"
    by (simp add: homogeneousList_def exampleList_def)
  ultimately have "outputNamespace ?r' = ''a''"
    using list_namespace_handling [OF its ev, of "''a''"] by blast
  with ev show ?thesis by simp
qed

text \<open>
  The claim as stated fails: the member of \<open>nestedList\<close> declares the namespace \<open>x\<close> and
  has an \<^verbatim>\<open>items\<close> array of its own; the list is not namespace-scoped and passes
  validation, and the member keeps its namespace.
\<close>

theorem list_namespace_handling_counterexample:
  "\<not> namespaced nestedList \<and>
   validateResource nestedList =
     Inr (nestedList
            \<lparr>obj := Unstructured ''v1'' ''List'' [] []
                      (Some [Object (Unstructured ''v1'' ''List'' [] ''x'' (Some []))]),
             listNamespaceName := ''x''\<rparr>)"
  by (simp add: nestedList_def exampleList_def validate_eval)

section \<open>Uniqueness across files\<close>

text \<open>
  \<^verbatim>\<open>existingResources\<close> starts empty and is never written, so the lookup gives the
  empty slice for every key and \<^verbatim>\<open>alreadyContains\<close> is never true.
\<close>

lemma findDuplicate_empty: "findDuplicate (\<lambda>gk. []) rs = None"
  by (induction rs) (simp_all add: Let_def)

text \<open>No call of \<^verbatim>\<open>validateResourceFiles\<close> returns the duplicate error.\<close>

lemma validate_no_duplicate_error:
  "validateResource r \<noteq> Inl (DuplicateResource dns dname dgk)"
  "validateResourceList r \<noteq> Inl (DuplicateResource dns dname dgk)"
  "validateListItems r its d ns \<noteq> Inl (DuplicateResource dns dname dgk)"
proof (induction r and r and r its d ns
    rule: validateResource_validateResourceList_validateListItems.induct)
  case (1 r)
  then show ?case by (auto simp: validateResource.simps)
next
  case (2 r)
  then show ?case by (auto simp: validateResourceList.simps split: option.splits sum.splits)
next
  case (3 r declaredNamespaces ns)
  show ?case by simp
next
  case (4 r rest declaredNamespaces ns)
  show ?case by simp
next
  case (5 r u rest declaredNamespaces ns)
  let ?d = "List.insert (GetNamespace (obj (r\<lparr>obj := u\<rparr>))) declaredNamespaces"
  show ?case
  proof (cases "1 < length ?d")
    case True
    then show ?thesis by (simp add: Let_def)
  next
    case False
    show ?thesis
    proof (cases "validateResource (r\<lparr>obj := u\<rparr>)")
      case (Inl e)
      with "5.IH"(1) [OF refl refl False] have "e \<noteq> DuplicateResource dns dname dgk" by auto
      with False Inl show ?thesis by (simp add: Let_def)
    next
      case (Inr inner')
      from "5.IH"(2) [OF refl refl False Inr]
      have "validateListItems r rest ?d (GetNamespace u) \<noteq> Inl (DuplicateResource dns dname dgk)" .
      with False Inr show ?thesis by (auto simp: Let_def split: sum.splits)
    qed
  qed
qed

lemma validateResources_no_duplicate_error:
  "validateResources rs \<noteq> Inl (DuplicateResource dns dname dgk)"
  by (induction rs) (auto simp: validate_no_duplicate_error(1) split: sum.splits)

lemma validateFilesLoop_no_duplicate_error:
  "validateFilesLoop (\<lambda>gk. []) files \<noteq> Inl (DuplicateResource dns dname dgk)"
proof (induction files)
  case Nil
  show ?case by simp
next
  case (Cons x files)
  obtain f rs where x: "x = (f, rs)" by (cases x)
  show ?case using Cons.IH validateResources_no_duplicate_error [of rs dns dname dgk]
    by (auto simp: x findDuplicate_empty split: sum.splits)
qed

lemma validateResourceFiles_no_duplicate_error:
  "validateResourceFiles files \<noteq> Inl (DuplicateResource dns dname dgk)"
  by (simp add: validateResourceFiles_def validateFilesLoop_no_duplicate_error)

text \<open>
  C1 asks for a duplicate error when two resources share Group-Kind, name and
  namespace. Two files that each hold the Deployment \<open>foo\<close> of group \<open>apps\<close> in
  namespace \<open>ns1\<close> pass \<^verbatim>\<open>validateResourceFiles\<close> without an error.
\<close>

theorem validateResourceFiles_accepts_duplicate:
  "GroupKindOf (GroupVersionKindOf (obj (exampleDeployment ''a.yaml''))) =
     GroupKind ''apps'' ''Deployment'' \<and>
   GroupKindOf (GroupVersionKindOf (obj (exampleDeployment ''b.yaml''))) =
     GroupKind ''apps'' ''Deployment'' \<and>
   validateResourceFiles
     [(''a.yaml'', [exampleDeployment ''a.yaml'']), (''b.yaml'', [exampleDeployment ''b.yaml''])] =
   Inr [(''a.yaml'', [exampleDeployment ''a.yaml'']), (''b.yaml'', [exampleDeployment ''b.yaml''])]"
  by (simp add: validateResourceFiles_def exampleDeployment_def validate_eval
      GroupKindOf_def GroupVersionKindOf_def ParseGroupVersion_def)

section \<open>Order of the validation steps\<close>

text \<open>The loops with the record of their steps return what the loops without it return.\<close>

lemma findDuplicateTrace_result:
  "findDuplicateTrace ex f rs = (evs, res) \<Longrightarrow> findDuplicate ex rs = res"
  by (induction rs arbitrary: evs res) (auto simp: Let_def split: prod.splits if_splits)

lemma validateFilesTrace_result:
  "validateFilesTrace ex files = (evs, res) \<Longrightarrow> validateFilesLoop ex files = res"
proof (induction files arbitrary: evs res)
  case Nil
  then show ?case by simp
next
  case (Cons a files)
  obtain f rs where a: "a = (f, rs)" by (cases a)
  show ?case
  proof (cases "validateResources rs")
    case (Inl e)
    with Cons.prems a show ?thesis by simp
  next
    case (Inr rs')
    obtain evs1 res1 where t1: "findDuplicateTrace ex f rs' = (evs1, res1)"
      by (cases "findDuplicateTrace ex f rs'")
    note d1 = findDuplicateTrace_result [OF t1]
    show ?thesis
    proof (cases res1)
      case (Some e)
      with Cons.prems a Inr t1 d1 show ?thesis by simp
    next
      case None
      obtain evs2 res2 where t2: "validateFilesTrace ex files = (evs2, res2)"
        by (cases "validateFilesTrace ex files")
      note d2 = Cons.IH [OF t2]
      show ?thesis
      proof (cases res2)
        case (Inl e)
        with d2 have l: "validateFilesLoop ex files = Inl e" by simp
        from Cons.prems show ?thesis by (auto simp: a Inr t1 d1 None t2 Inl l)
      next
        case r2: (Inr files')
        with d2 have l: "validateFilesLoop ex files = Inr files'" by simp
        from Cons.prems show ?thesis by (auto simp: a Inr t1 d1 None t2 r2 l)
      qed
    qed
  qed
qed

lemma validateResourceFilesTrace_result:
  "snd (validateResourceFilesTrace files) = validateResourceFiles files"
  unfolding validateResourceFilesTrace_def validateResourceFiles_def
  by (cases "validateFilesTrace (\<lambda>gk. []) files") (simp add: validateFilesTrace_result)



lemma validateResource_normalized:
  "validateResource r = Inr r' \<Longrightarrow> \<not> IsList (obj r') \<Longrightarrow>
     (GetNamespace (obj r') = []) = (\<not> namespaced r')"
proof (cases "listItems (obj r)")
  case None
  assume "validateResource r = Inr r'"
  with None show ?thesis
    by (cases "obj r") (auto simp: validateResource.simps IsList_def split: if_splits)
next
  case (Some its)
  assume v: "validateResource r = Inr r'" and n: "\<not> IsList (obj r')"
  from validateResource_list [OF Some] v have "IsList (obj r')"
    by (auto simp: IsList_def split: sum.splits)
  with n show ?thesis by simp
qed








section \<open>Classification\<close>

lemma gatherResources_lookup:
  "(case gatherResources outputs rs ns of None \<Rightarrow> [] | Some l \<Rightarrow> l) =
     (case outputs ns of None \<Rightarrow> [] | Some l \<Rightarrow> l) @ filter (\<lambda>r. outputNamespace r = ns) rs"
  by (induction rs arbitrary: outputs) (simp_all add: Let_def)

lemma gatherOutputs_lookup:
  "(case gatherOutputs outputs files ns of None \<Rightarrow> [] | Some l \<Rightarrow> l) =
     (case outputs ns of None \<Rightarrow> [] | Some l \<Rightarrow> l) @
     filter (\<lambda>r. outputNamespace r = ns) (concat (map snd files))"
proof (induction files arbitrary: outputs)
  case Nil
  show ?case by simp
next
  case (Cons a files)
  obtain f rs where a: "a = (f, rs)" by (cases a)
  show ?case by (simp add: a Cons.IH gatherResources_lookup)
qed

lemma gatherResources_dom:
  "(gatherResources outputs rs ns = None) =
     (outputs ns = None \<and> filter (\<lambda>r. outputNamespace r = ns) rs = [])"
  by (induction rs arbitrary: outputs) (auto simp: Let_def)

lemma gatherOutputs_dom:
  "(gatherOutputs outputs files ns = None) =
     (outputs ns = None \<and> filter (\<lambda>r. outputNamespace r = ns) (concat (map snd files)) = [])"
proof (induction files arbitrary: outputs)
  case Nil
  show ?case by simp
next
  case (Cons a files)
  obtain f rs where a: "a = (f, rs)" by (cases a)
  show ?case by (auto simp: a Cons.IH gatherResources_dom)
qed

text \<open>
  C7. After the gathering loop of \<^verbatim>\<open>main\<close>, the entry of \<^verbatim>\<open>outputs\<close> for a key holds,
  in order, exactly the resources of all files whose key it is (and there is no entry
  for a key of no resource). The key of a resource is its name when it has kind
  \<^verbatim>\<open>Namespace\<close> and version \<^verbatim>\<open>v1\<close>, else its \<^verbatim>\<open>listNamespaceName\<close> when it is a
  list, else its own namespace. A \<^verbatim>\<open>Repo\<close> of \<^verbatim>\<open>configmanagement.gke.io/v1\<close> is
  written into the system directory and every other resource into the directory of
  its key: the cluster directory for the empty key, the directory of the namespace
  otherwise. A resource that validation returned and that is neither namespace-scoped,
  nor a list, nor a \<^verbatim>\<open>v1\<close> \<^verbatim>\<open>Namespace\<close> has the empty key.
\<close>

theorem classification:
  "gatherOutputs Map.empty files ns =
     (if filter (\<lambda>r. outputNamespace r = ns) (concat (map snd files)) = [] then None
      else Some (filter (\<lambda>r. outputNamespace r = ns) (concat (map snd files)))) \<and>
   outputNamespace r =
     (if GetKind (obj r) = ''Namespace'' \<and> GetAPIVersion (obj r) = ''v1'' then GetName (obj r)
      else if IsList (obj r) then listNamespaceName r
      else GetNamespace (obj r)) \<and>
   resourceDir outputDir (outputNamespace r) r =
     (if GetKind (obj r) = ''Repo'' \<and> GetAPIVersion (obj r) = ''configmanagement.gke.io/v1''
        then [outputDir, ''system'']
      else if outputNamespace r = [] then [outputDir, ''cluster'']
      else [outputDir, ''namespaces'', outputNamespace r]) \<and>
   (validateResource r0 = Inr r \<and> \<not> namespaced r \<and> \<not> IsList (obj r) \<and>
    \<not> (GetKind (obj r) = ''Namespace'' \<and> GetAPIVersion (obj r) = ''v1'')
      \<longrightarrow> outputNamespace r = [])"
proof (intro conjI impI)
  let ?l = "filter (\<lambda>r. outputNamespace r = ns) (concat (map snd files))"
  show "gatherOutputs Map.empty files ns = (if ?l = [] then None else Some ?l)"
  proof (cases "?l = []")
    case True
    then show ?thesis using gatherOutputs_dom [of Map.empty files ns] by simp
  next
    case False
    then obtain l where l: "gatherOutputs Map.empty files ns = Some l"
      using gatherOutputs_dom [of Map.empty files ns] by auto
    with gatherOutputs_lookup [of Map.empty files ns] have "l = ?l" by simp
    with l False show ?thesis by simp
  qed
  show "outputNamespace r =
     (if GetKind (obj r) = ''Namespace'' \<and> GetAPIVersion (obj r) = ''v1'' then GetName (obj r)
      else if IsList (obj r) then listNamespaceName r
      else GetNamespace (obj r))"
    by (simp add: outputNamespace_def Let_def)
  show "resourceDir outputDir (outputNamespace r) r =
     (if GetKind (obj r) = ''Repo'' \<and> GetAPIVersion (obj r) = ''configmanagement.gke.io/v1''
        then [outputDir, ''system'']
      else if outputNamespace r = [] then [outputDir, ''cluster'']
      else [outputDir, ''namespaces'', outputNamespace r])"
    by (simp add: resourceDir_def outputDirname_def)
next
  assume h: "validateResource r0 = Inr r \<and> \<not> namespaced r \<and> \<not> IsList (obj r) \<and>
    \<not> (GetKind (obj r) = ''Namespace'' \<and> GetAPIVersion (obj r) = ''v1'')"
  then have "GetNamespace (obj r) = []"
    using validateResource_normalized [of r0 r] by blast
  with h show "outputNamespace r = []"
    by (auto simp: outputNamespace_def Let_def)
qed


theorem classification_witness:
  "validateResource exampleClusterRole = Inr clearedClusterRole \<and>
   outputNamespace clearedClusterRole = [] \<and>
   resourceDir ''config/'' (outputNamespace clearedClusterRole) clearedClusterRole =
     [''config/'', ''cluster''] \<and>
   outputNamespace exampleNamespace = ''team-a'' \<and>
   resourceDir ''config/'' (outputNamespace exampleRepo) exampleRepo = [''config/'', ''system''] \<and>
   gatherOutputs Map.empty
     [(''a.yaml'', [exampleDeployment ''a.yaml'', clearedClusterRole, exampleNamespace, exampleRepo])]
     [] = Some [clearedClusterRole, exampleRepo]"
proof -
  let ?files =
    "[(''a.yaml'', [exampleDeployment ''a.yaml'', clearedClusterRole, exampleNamespace, exampleRepo])]"
  have ev: "validateResource exampleClusterRole = Inr clearedClusterRole"
    by (simp add: exampleClusterRole_def clearedClusterRole_def validate_eval)
  have plain: "\<not> namespaced clearedClusterRole \<and> \<not> IsList (obj clearedClusterRole) \<and>
      \<not> (GetKind (obj clearedClusterRole) = ''Namespace'' \<and>
          GetAPIVersion (obj clearedClusterRole) = ''v1'')"
    by (simp add: exampleClusterRole_def clearedClusterRole_def IsList_def)
  have 1: "outputNamespace clearedClusterRole = []"
    using classification [of ?files "[]" clearedClusterRole "''config/''" exampleClusterRole]
      ev plain by blast
  have 2: "resourceDir ''config/'' (outputNamespace clearedClusterRole) clearedClusterRole =
     [''config/'', ''cluster'']"
    using classification [THEN conjunct2, THEN conjunct2, THEN conjunct1,
        of "''config/''" clearedClusterRole] 1
    by (simp add: exampleClusterRole_def clearedClusterRole_def)
  have 3: "outputNamespace exampleNamespace = ''team-a''"
    using classification [THEN conjunct2, THEN conjunct1, of exampleNamespace]
    by (simp add: exampleNamespace_def)
  have 4: "resourceDir ''config/'' (outputNamespace exampleRepo) exampleRepo =
      [''config/'', ''system'']"
    using classification [THEN conjunct2, THEN conjunct2, THEN conjunct1,
        of "''config/''" exampleRepo]
    by (simp add: exampleRepo_def)
  have 5: "gatherOutputs Map.empty ?files [] = Some [clearedClusterRole, exampleRepo]"
    using classification [THEN conjunct1, of ?files "[]"]
    by (simp add: outputNamespace_def Let_def IsList_def exampleDeployment_def
        exampleClusterRole_def clearedClusterRole_def exampleNamespace_def exampleRepo_def)
  from ev 1 2 3 4 5 show ?thesis by simp
qed

section \<open>Decoding a stream\<close>

lemma decodeLoop_exhausted:
  "decodeLoop c expandLists input isJSON [] i resources = Inr resources"
  by (simp add: decodeLoop.simps [of c expandLists input isJSON "[]"] DecodeYAML_def DecodeJSON_def
      yamlReaderRead_def ReadAll_def)

lemma decodeLoop_yaml_empty:
  "decodeLoop c expandLists input False (([], None) # rd) i resources =
     decodeLoop c expandLists input False rd i resources"
  by (simp add: decodeLoop.simps [of c expandLists input False "([], None) # rd"] DecodeYAML_def
      yamlReaderRead_def emptyUnstructured_def)

lemma numbered_append:
  "numbered i input fmt (ps @ qs) =
     numbered i input fmt ps @ numbered (i + int (length ps)) input fmt qs"
  by (induction ps arbitrary: i) (auto simp: add.assoc)

lemma length_numbered [simp]: "length (numbered i input fmt ps) = length ps"
  by (induction ps arbitrary: i) auto

lemma numbered_nth:
  "k < length ps \<Longrightarrow>
     numbered i input fmt ps ! k = newResource (i + int k) input (fst (ps ! k)) fmt (snd (ps ! k))"
proof (induction ps arbitrary: i k)
  case Nil
  then show ?case by simp
next
  case (Cons p ps)
  obtain b u where p: "p = (b, u)" by (cases p)
  show ?case
  proof (cases k)
    case 0
    then show ?thesis by (simp add: p)
  next
    case (Suc j)
    with Cons.prems have "j < length ps" by simp
    from Cons.IH [OF this, of "i + 1"] show ?thesis by (simp add: p Suc add.assoc)
  qed
qed

lemma numbered_pairs: "map (\<lambda>r. (data r, obj r)) (numbered i input fmt ps) = ps"
  by (induction ps arbitrary: i) (auto simp: newResource_def)

lemma expandItems_all:
  "list_all (encodable enc) its \<Longrightarrow>
   expandItems enc input fmt its i res =
     ((res @ numbered i input fmt (map (encodedItem enc) its), i + int (length its)), None)"
proof (induction its arbitrary: i res)
  case Nil
  show ?case by simp
next
  case (Cons it rest)
  from Cons.prems obtain v b where it: "it = Object v" and b: "enc v = Inr b"
    by (cases it; cases "enc (case it of Object v \<Rightarrow> v)") (auto simp: encodable_def split: sum.splits)
  from Cons.prems have "list_all (encodable enc) rest" by simp
  from Cons.IH [OF this, of "i + 1" "res @ [newResource i input b fmt v]"]
  show ?case by (simp add: it b encodedItem_def add.assoc)
qed

lemma decodeLoop_step:
  assumes "d \<noteq> []" and "(if isJSON then jsonUnmarshal c else yamlUnmarshal c) d = Inr u"
  shows "decodeLoop c expandLists input isJSON ((d, None) # rd) i res =
     (if GetAPIVersion u = [] \<or> GetKind u = []
        then decodeLoop c expandLists input isJSON rd i res
      else if expandLists \<and> IsList u then
        (case expandList (if isJSON then jsonMarshal c else yamlMarshal c) input
                (if isJSON then jsonFormat else yamlFormat) u i res of
           ((res', i'), err) \<Rightarrow> decodeLoop c expandLists input isJSON rd i' res')
      else decodeLoop c expandLists input isJSON rd (i + 1)
             (res @ [newResource i input d (if isJSON then jsonFormat else yamlFormat) u]))"
proof (cases isJSON)
  case True
  with assms show ?thesis
    by (simp add: decodeLoop.simps [of c expandLists input True "(d, None) # rd"] DecodeJSON_def
        ReadAll_def)
next
  case False
  with assms show ?thesis
    by (simp add: decodeLoop.simps [of c expandLists input False "(d, None) # rd"] DecodeYAML_def
        yamlReaderRead_def)
qed

lemma decodeLoop_documents:
  assumes "\<forall>d \<in> set docs. d \<noteq> [] \<longrightarrow>
             (\<exists>u. (if isJSON then jsonUnmarshal c else yamlUnmarshal c) d = Inr u \<and>
                  (expandLists \<and> IsList u \<and> GetAPIVersion u \<noteq> [] \<and> GetKind u \<noteq> [] \<longrightarrow>
                     list_all (encodable (if isJSON then jsonMarshal c else yamlMarshal c))
                       (members u)))"
    and "isJSON \<longrightarrow> [] \<notin> set docs"
  shows "decodeLoop c expandLists input isJSON (map (\<lambda>d. (d, None)) docs) i res =
           Inr (res @ numbered i input (if isJSON then jsonFormat else yamlFormat)
                  (concat (map (documentYield (if isJSON then jsonUnmarshal c else yamlUnmarshal c)
                                  (if isJSON then jsonMarshal c else yamlMarshal c) expandLists)
                             docs)))"
  using assms
proof (induction docs arbitrary: i res)
  case Nil
  show ?case by (simp add: decodeLoop_exhausted)
next
  case (Cons d docs)
  let ?un = "if isJSON then jsonUnmarshal c else yamlUnmarshal c"
  let ?en = "if isJSON then jsonMarshal c else yamlMarshal c"
  let ?fmt = "if isJSON then jsonFormat else yamlFormat"
  have rest1: "\<forall>d \<in> set docs. d \<noteq> [] \<longrightarrow>
             (\<exists>u. ?un d = Inr u \<and>
                  (expandLists \<and> IsList u \<and> GetAPIVersion u \<noteq> [] \<and> GetKind u \<noteq> [] \<longrightarrow>
                     list_all (encodable ?en) (members u)))"
    using Cons.prems(1) by simp
  have rest2: "isJSON \<longrightarrow> [] \<notin> set docs" using Cons.prems(2) by simp
  note IH = Cons.IH [OF rest1 rest2]
  show ?case
  proof (cases "d = []")
    case True
    with Cons.prems(2) have y: "\<not> isJSON" by auto
    show ?thesis using IH [of i res] y
      by (simp add: True decodeLoop_yaml_empty documentYield_def)
  next
    case False
    with Cons.prems(1) obtain u where u: "?un d = Inr u"
      and ex: "expandLists \<and> IsList u \<and> GetAPIVersion u \<noteq> [] \<and> GetKind u \<noteq> [] \<longrightarrow>
               list_all (encodable ?en) (members u)" by auto
    note step = decodeLoop_step [OF False u, of expandLists input rd i res for rd]
    show ?thesis
    proof (cases "GetAPIVersion u = [] \<or> GetKind u = []")
      case True
      have y: "documentYield ?un ?en expandLists d = []"
        using True False u by (simp add: documentYield_def)
      show ?thesis using IH [of i res] True
        by (simp only: list.map concat.simps y append_Nil step if_True)
    next
      case fields: False
      show ?thesis
      proof (cases "expandLists \<and> IsList u")
        case True
        with ex fields have all: "list_all (encodable ?en) (members u)" by simp
        from True obtain its where its: "listItems u = Some its"
          by (auto simp: IsList_def split: option.splits)
        then have m: "members u = its" by (simp add: members_def)
        have y: "documentYield ?un ?en expandLists d = map (encodedItem ?en) its"
          using True False u fields m by (simp add: documentYield_def)
        have e: "expandList ?en input ?fmt u i res =
            ((res @ numbered i input ?fmt (map (encodedItem ?en) its), i + int (length its)), None)"
          using expandItems_all [OF all [unfolded m]] its by (simp add: expandList_def)
        have "decodeLoop c expandLists input isJSON (map (\<lambda>d. (d, None)) (d # docs)) i res =
              decodeLoop c expandLists input isJSON (map (\<lambda>d. (d, None)) docs)
                (i + int (length its)) (res @ numbered i input ?fmt (map (encodedItem ?en) its))"
          using step [of "map (\<lambda>d. (d, None)) docs"] fields True e by simp
        also have "\<dots> = Inr ((res @ numbered i input ?fmt (map (encodedItem ?en) its)) @
            numbered (i + int (length its)) input ?fmt
              (concat (map (documentYield ?un ?en expandLists) docs)))"
          by (rule IH)
        also have "\<dots> = Inr (res @ numbered i input ?fmt
              (concat (map (documentYield ?un ?en expandLists) (d # docs))))"
          by (simp add: y numbered_append)
        finally show ?thesis .
      next
        case False
        have y: "documentYield ?un ?en expandLists d = [(d, u)]"
          using False \<open>d \<noteq> []\<close> u fields by (auto simp: documentYield_def)
        have "decodeLoop c expandLists input isJSON (map (\<lambda>d. (d, None)) (d # docs)) i res =
              decodeLoop c expandLists input isJSON (map (\<lambda>d. (d, None)) docs)
                (i + 1) (res @ [newResource i input d ?fmt u])"
          using step [of "map (\<lambda>d. (d, None)) docs"] fields False by simp
        also have "\<dots> = Inr ((res @ [newResource i input d ?fmt u]) @
            numbered (i + 1) input ?fmt (concat (map (documentYield ?un ?en expandLists) docs)))"
          by (rule IH)
        also have "\<dots> = Inr (res @ numbered i input ?fmt
              (concat (map (documentYield ?un ?en expandLists) (d # docs))))"
          by (simp add: y)
        finally show ?thesis .
      qed
    qed
  qed
qed


lemma encodedItem_member:
  "encodable enc it \<Longrightarrow> Object (snd (encodedItem enc it)) = it"
  by (cases it) (auto simp: encodable_def encodedItem_def split: sum.splits)

lemma encodedItems_members:
  "list_all (encodable enc) its \<Longrightarrow> map Object (map snd (map (encodedItem enc) its)) = its"
  by (induction its) (auto simp: encodedItem_member)

text \<open>
  C2, as the code has it. For a YAML stream whose reads return the documents \<open>docs\<close>,
  each non-empty one of which parses (and, when it is a list and lists are expanded,
  has only members that are objects the encoder encodes), \<^verbatim>\<open>decodeResourceManifest\<close>
  returns no error, and its resources carry, in the order of the stream and up to its
  end, the pairs that the documents yield: raw bytes and parsed form for a non-empty
  document with \<^verbatim>\<open>apiVersion\<close> and \<^verbatim>\<open>kind\<close>, the re-encoded members for an expanded
  list, nothing for an empty document or a document without one of the two fields.
\<close>

theorem decode_yaml_documents:
  assumes "\<forall>d \<in> set docs. d \<noteq> [] \<longrightarrow>
             (\<exists>u. yamlUnmarshal c d = Inr u \<and>
                  (expandLists \<and> IsList u \<and> GetAPIVersion u \<noteq> [] \<and> GetKind u \<noteq> [] \<longrightarrow>
                     list_all (encodable (yamlMarshal c)) (members u)))"
  shows "\<exists>rs. decodeResourceManifest c expandLists input False (map (\<lambda>d. (d, None)) docs) =
                Inr rs \<and>
              map (\<lambda>r. (data r, obj r)) rs =
                concat (map (documentYield (yamlUnmarshal c) (yamlMarshal c) expandLists) docs)"
proof -
  have "decodeLoop c expandLists input False (map (\<lambda>d. (d, None)) docs) 0 [] =
          Inr ([] @ numbered 0 input (if False then jsonFormat else yamlFormat)
                 (concat (map (documentYield (if False then jsonUnmarshal c else yamlUnmarshal c)
                                 (if False then jsonMarshal c else yamlMarshal c) expandLists)
                            docs)))"
    by (rule decodeLoop_documents) (use assms in simp_all)
  then show ?thesis by (simp add: decodeResourceManifest_def numbered_pairs)
qed

theorem decode_yaml_documents_witness:
  "decodeResourceManifest exampleCodecs True ''a.yaml'' False
     (map (\<lambda>d. (d, None))
        [''v1 ConfigMap cfg ns1'', [], ''kind: ConfigMap'', ''v1 List [c0, c1, c2]'',
         ''v1 ClusterRole cr'']) =
   Inr [newResource 0 ''a.yaml'' ''v1 ConfigMap cfg ns1'' yamlFormat
          (Unstructured ''v1'' ''ConfigMap'' ''cfg'' ''ns1'' None),
        newResource 1 ''a.yaml'' ''v1 ConfigMap c0'' yamlFormat (exampleItem ''c0'' ''ns2''),
        newResource 2 ''a.yaml'' ''v1 ConfigMap c1'' yamlFormat (exampleItem ''c1'' ''ns2''),
        newResource 3 ''a.yaml'' ''v1 ConfigMap c2'' yamlFormat (exampleItem ''c2'' ''ns2''),
        newResource 4 ''a.yaml'' ''v1 ClusterRole cr'' yamlFormat
          (Unstructured ''rbac.authorization.k8s.io/v1'' ''ClusterRole'' ''cr'' [] None)] \<and>
   concat (map (documentYield (yamlUnmarshal exampleCodecs) (yamlMarshal exampleCodecs) True)
        [''v1 ConfigMap cfg ns1'', [], ''kind: ConfigMap'', ''v1 List [c0, c1, c2]'',
         ''v1 ClusterRole cr'']) =
   [(''v1 ConfigMap cfg ns1'', Unstructured ''v1'' ''ConfigMap'' ''cfg'' ''ns1'' None),
    (''v1 ConfigMap c0'', exampleItem ''c0'' ''ns2''),
    (''v1 ConfigMap c1'', exampleItem ''c1'' ''ns2''),
    (''v1 ConfigMap c2'', exampleItem ''c2'' ''ns2''),
    (''v1 ClusterRole cr'',
     Unstructured ''rbac.authorization.k8s.io/v1'' ''ClusterRole'' ''cr'' [] None)]"
proof -
  let ?docs = "[''v1 ConfigMap cfg ns1'', [], ''kind: ConfigMap'', ''v1 List [c0, c1, c2]'',
         ''v1 ClusterRole cr'']"
  let ?rs = "[newResource 0 ''a.yaml'' ''v1 ConfigMap cfg ns1'' yamlFormat
          (Unstructured ''v1'' ''ConfigMap'' ''cfg'' ''ns1'' None),
        newResource 1 ''a.yaml'' ''v1 ConfigMap c0'' yamlFormat (exampleItem ''c0'' ''ns2''),
        newResource 2 ''a.yaml'' ''v1 ConfigMap c1'' yamlFormat (exampleItem ''c1'' ''ns2''),
        newResource 3 ''a.yaml'' ''v1 ConfigMap c2'' yamlFormat (exampleItem ''c2'' ''ns2''),
        newResource 4 ''a.yaml'' ''v1 ClusterRole cr'' yamlFormat
          (Unstructured ''rbac.authorization.k8s.io/v1'' ''ClusterRole'' ''cr'' [] None)]"
  have hyp: "\<forall>d \<in> set ?docs. d \<noteq> [] \<longrightarrow>
      (\<exists>u. yamlUnmarshal exampleCodecs d = Inr u \<and>
           (True \<and> IsList u \<and> GetAPIVersion u \<noteq> [] \<and> GetKind u \<noteq> [] \<longrightarrow>
              list_all (encodable (yamlMarshal exampleCodecs)) (members u)))"
    by (simp add: exampleCodecs_def exampleUnmarshal_def exampleDocuments_def IsList_def
        members_def encodable_def exampleMarshal_def)
  have ev: "decodeResourceManifest exampleCodecs True ''a.yaml'' False
      (map (\<lambda>d. (d, None)) ?docs) = Inr ?rs"
    by code_simp
  from decode_yaml_documents [OF hyp, of "''a.yaml''"] ev
  have "map (\<lambda>r. (data r, obj r)) ?rs =
      concat (map (documentYield (yamlUnmarshal exampleCodecs) (yamlMarshal exampleCodecs) True)
        ?docs)"
    by auto
  then have "concat (map (documentYield (yamlUnmarshal exampleCodecs)
        (yamlMarshal exampleCodecs) True) ?docs) = map (\<lambda>r. (data r, obj r)) ?rs"
    by (rule sym)
  then have "concat (map (documentYield (yamlUnmarshal exampleCodecs)
        (yamlMarshal exampleCodecs) True) ?docs) =
      [(''v1 ConfigMap cfg ns1'', Unstructured ''v1'' ''ConfigMap'' ''cfg'' ''ns1'' None),
       (''v1 ConfigMap c0'', exampleItem ''c0'' ''ns2''),
       (''v1 ConfigMap c1'', exampleItem ''c1'' ''ns2''),
       (''v1 ConfigMap c2'', exampleItem ''c2'' ''ns2''),
       (''v1 ClusterRole cr'',
        Unstructured ''rbac.authorization.k8s.io/v1'' ''ClusterRole'' ''cr'' [] None)]"
    by (simp add: newResource_def)
  with ev show ?thesis by blast
qed

text \<open>
  The claim as stated fails: the stream holds one non-empty document, which parses to
  an object with a kind and no \<^verbatim>\<open>apiVersion\<close>, and the decoder produces no resource.
\<close>

theorem decode_yaml_documents_counterexample:
  "yamlUnmarshal exampleCodecs ''kind: ConfigMap'' = Inr (Unstructured [] ''ConfigMap'' [] [] None) \<and>
   decodeResourceManifest exampleCodecs True ''a.yaml'' False [(''kind: ConfigMap'', None)] = Inr []"
  by code_simp

section \<open>Expanded lists\<close>

text \<open>
  C3, as the code has it. With lists expanded, for a stream whose non-empty documents
  parse and whose lists have only members that are objects the encoder encodes (a JSON
  stream being read in one piece, so without an empty read), the resources of a file
  hold, in the order of the stream, the objects that the documents
  yield, which for a list are its members; the \<open>k\<close>-th resource of the file has the
  index \<open>k\<close>, also when it comes from a list after other documents, and
  \<^verbatim>\<open>resourceFilename\<close> names it by kind and name, \<^verbatim>\<open><Kind>-<name>.<format>\<close>;
  \<^verbatim>\<open>namespace.<format>\<close> when it is a \<^verbatim>\<open>v1\<close> \<^verbatim>\<open>Namespace\<close>; the name with the index
  and the input file, \<^verbatim>\<open><Kind>-<index>-<base>.<format>\<close>, only when its object has an
  \<^verbatim>\<open>items\<close> array itself.
\<close>

theorem expanded_item_filename:
  assumes "\<forall>d \<in> set docs. d \<noteq> [] \<longrightarrow>
             (\<exists>u. (if isJSON then jsonUnmarshal c else yamlUnmarshal c) d = Inr u \<and>
                  (IsList u \<and> GetAPIVersion u \<noteq> [] \<and> GetKind u \<noteq> [] \<longrightarrow>
                     list_all (encodable (if isJSON then jsonMarshal c else yamlMarshal c))
                       (members u)))"
    and "isJSON \<longrightarrow> [] \<notin> set docs"
  shows "\<exists>rs. decodeResourceManifest c True input isJSON (map (\<lambda>d. (d, None)) docs) = Inr rs \<and>
           map obj rs =
             map snd (concat (map (documentYield
                                     (if isJSON then jsonUnmarshal c else yamlUnmarshal c)
                                     (if isJSON then jsonMarshal c else yamlMarshal c) True) docs)) \<and>
           (\<forall>d \<in> set docs. \<forall>u. d \<noteq> [] \<and>
                (if isJSON then jsonUnmarshal c else yamlUnmarshal c) d = Inr u \<and>
                GetAPIVersion u \<noteq> [] \<and> GetKind u \<noteq> [] \<and> IsList u \<longrightarrow>
                map Object (map snd (documentYield
                                       (if isJSON then jsonUnmarshal c else yamlUnmarshal c)
                                       (if isJSON then jsonMarshal c else yamlMarshal c) True d)) =
                  members u) \<and>
           (\<forall>k < length rs.
              idx (rs ! k) = int k \<and> inputFilename (rs ! k) = input \<and>
              format (rs ! k) = (if isJSON then jsonFormat else yamlFormat) \<and>
              resourceFilename (rs ! k) =
                (if IsList (obj (rs ! k)) then
                   GetKind (obj (rs ! k)) @ ''-'' @ formatInt (int k) @ ''-'' @
                     TrimSuffix (Base input) (Ext (Base input)) @ ''.'' @
                     (if isJSON then jsonFormat else yamlFormat)
                 else if GetKind (obj (rs ! k)) = ''Namespace'' \<and> GetAPIVersion (obj (rs ! k)) = ''v1''
                   then ''namespace.'' @ (if isJSON then jsonFormat else yamlFormat)
                 else GetKind (obj (rs ! k)) @ ''-'' @ GetName (obj (rs ! k)) @ ''.'' @
                        (if isJSON then jsonFormat else yamlFormat)))"
proof -
  let ?un = "if isJSON then jsonUnmarshal c else yamlUnmarshal c"
  let ?en = "if isJSON then jsonMarshal c else yamlMarshal c"
  let ?fmt = "if isJSON then jsonFormat else yamlFormat"
  let ?ps = "concat (map (documentYield ?un ?en True) docs)"
  let ?rs = "numbered 0 input ?fmt ?ps"
  have "decodeLoop c True input isJSON (map (\<lambda>d. (d, None)) docs) 0 [] = Inr ([] @ ?rs)"
    by (rule decodeLoop_documents) (use assms in simp_all)
  then have dec: "decodeResourceManifest c True input isJSON (map (\<lambda>d. (d, None)) docs) = Inr ?rs"
    by (simp add: decodeResourceManifest_def)
  have "map (\<lambda>r. (data r, obj r)) ?rs = ?ps" by (rule numbered_pairs)
  then have "map snd (map (\<lambda>r. (data r, obj r)) ?rs) = map snd ?ps" by simp
  then have objs: "map obj ?rs = map snd ?ps" by (simp add: comp_def)
  have mem: "map Object (map snd (documentYield ?un ?en True d)) = members u"
    if "d \<in> set docs" and "d \<noteq> [] \<and> ?un d = Inr u \<and> GetAPIVersion u \<noteq> [] \<and> GetKind u \<noteq> [] \<and> IsList u"
    for d u
  proof -
    from assms(1) that obtain u' where "?un d = Inr u'"
      and e: "IsList u' \<and> GetAPIVersion u' \<noteq> [] \<and> GetKind u' \<noteq> [] \<longrightarrow>
              list_all (encodable ?en) (members u')" by blast
    with that have "u' = u" by simp
    with e that have "list_all (encodable ?en) (members u)" by simp
    from encodedItems_members [OF this] that show ?thesis
      by (simp add: documentYield_def)
  qed
  have nth: "idx (?rs ! k) = int k \<and> inputFilename (?rs ! k) = input \<and>
              format (?rs ! k) = ?fmt \<and>
              resourceFilename (?rs ! k) =
                (if IsList (obj (?rs ! k)) then
                   GetKind (obj (?rs ! k)) @ ''-'' @ formatInt (int k) @ ''-'' @
                     TrimSuffix (Base input) (Ext (Base input)) @ ''.'' @ ?fmt
                 else if GetKind (obj (?rs ! k)) = ''Namespace'' \<and> GetAPIVersion (obj (?rs ! k)) = ''v1''
                   then ''namespace.'' @ ?fmt
                 else GetKind (obj (?rs ! k)) @ ''-'' @ GetName (obj (?rs ! k)) @ ''.'' @ ?fmt)"
    if "k < length ?rs" for k
  proof -
    from that have "k < length ?ps" by simp
    from numbered_nth [OF this, of 0 input ?fmt]
    have "?rs ! k = newResource (int k) input (fst (?ps ! k)) ?fmt (snd (?ps ! k))" by simp
    then show ?thesis by (simp add: newResource_def resourceFilename_def Let_def)
  qed
  from dec objs mem nth show ?thesis by blast
qed


theorem expanded_item_filename_witness:
  "decodeResourceManifest exampleCodecs True ''a.yaml'' False
     (map (\<lambda>d. (d, None)) [''v1 ConfigMap cfg ns1'', ''v1 List [c0, c1, c2]'']) =
   Inr [newResource 0 ''a.yaml'' ''v1 ConfigMap cfg ns1'' yamlFormat
          (Unstructured ''v1'' ''ConfigMap'' ''cfg'' ''ns1'' None),
        newResource 1 ''a.yaml'' ''v1 ConfigMap c0'' yamlFormat (exampleItem ''c0'' ''ns2''),
        newResource 2 ''a.yaml'' ''v1 ConfigMap c1'' yamlFormat (exampleItem ''c1'' ''ns2''),
        newResource 3 ''a.yaml'' ''v1 ConfigMap c2'' yamlFormat (exampleItem ''c2'' ''ns2'')] \<and>
   idx (newResource 2 ''a.yaml'' ''v1 ConfigMap c1'' yamlFormat (exampleItem ''c1'' ''ns2'')) = 2 \<and>
   resourceFilename
     (newResource 2 ''a.yaml'' ''v1 ConfigMap c1'' yamlFormat (exampleItem ''c1'' ''ns2'')) =
     ''ConfigMap-c1.yaml''"
proof -
  let ?docs = "[''v1 ConfigMap cfg ns1'', ''v1 List [c0, c1, c2]'']"
  let ?rs = "[newResource 0 ''a.yaml'' ''v1 ConfigMap cfg ns1'' yamlFormat
          (Unstructured ''v1'' ''ConfigMap'' ''cfg'' ''ns1'' None),
        newResource 1 ''a.yaml'' ''v1 ConfigMap c0'' yamlFormat (exampleItem ''c0'' ''ns2''),
        newResource 2 ''a.yaml'' ''v1 ConfigMap c1'' yamlFormat (exampleItem ''c1'' ''ns2''),
        newResource 3 ''a.yaml'' ''v1 ConfigMap c2'' yamlFormat (exampleItem ''c2'' ''ns2'')]"
  have hyp: "\<forall>d \<in> set ?docs. d \<noteq> [] \<longrightarrow>
      (\<exists>u. (if False then jsonUnmarshal exampleCodecs else yamlUnmarshal exampleCodecs) d = Inr u \<and>
           (IsList u \<and> GetAPIVersion u \<noteq> [] \<and> GetKind u \<noteq> [] \<longrightarrow>
              list_all (encodable (if False then jsonMarshal exampleCodecs
                                   else yamlMarshal exampleCodecs)) (members u)))"
    by (simp add: exampleCodecs_def exampleUnmarshal_def exampleDocuments_def IsList_def
        members_def encodable_def exampleMarshal_def)
  have yaml: "False \<longrightarrow> [] \<notin> set ?docs" by simp
  have ev: "decodeResourceManifest exampleCodecs True ''a.yaml'' False
      (map (\<lambda>d. (d, None)) ?docs) = Inr ?rs"
    by code_simp
  from expanded_item_filename [OF hyp yaml, of "''a.yaml''"] ev
  have all: "\<forall>k < length ?rs.
       idx (?rs ! k) = int k \<and>
       resourceFilename (?rs ! k) =
         (if IsList (obj (?rs ! k)) then
            GetKind (obj (?rs ! k)) @ ''-'' @ formatInt (int k) @ ''-'' @
              TrimSuffix (Base ''a.yaml'') (Ext (Base ''a.yaml'')) @ ''.'' @ yamlFormat
          else if GetKind (obj (?rs ! k)) = ''Namespace'' \<and> GetAPIVersion (obj (?rs ! k)) = ''v1''
            then ''namespace.'' @ yamlFormat
          else GetKind (obj (?rs ! k)) @ ''-'' @ GetName (obj (?rs ! k)) @ ''.'' @ yamlFormat)"
    by auto
  have k: "(2::nat) < length ?rs" by simp
  from all k have "idx (?rs ! 2) = int 2 \<and>
       resourceFilename (?rs ! 2) =
         (if IsList (obj (?rs ! 2)) then
            GetKind (obj (?rs ! 2)) @ ''-'' @ formatInt (int 2) @ ''-'' @
              TrimSuffix (Base ''a.yaml'') (Ext (Base ''a.yaml'')) @ ''.'' @ yamlFormat
          else if GetKind (obj (?rs ! 2)) = ''Namespace'' \<and> GetAPIVersion (obj (?rs ! 2)) = ''v1''
            then ''namespace.'' @ yamlFormat
          else GetKind (obj (?rs ! 2)) @ ''-'' @ GetName (obj (?rs ! 2)) @ ''.'' @ yamlFormat)"
    by blast
  then have "idx (newResource 2 ''a.yaml'' ''v1 ConfigMap c1'' yamlFormat (exampleItem ''c1'' ''ns2'')) = 2 \<and>
     resourceFilename
       (newResource 2 ''a.yaml'' ''v1 ConfigMap c1'' yamlFormat (exampleItem ''c1'' ''ns2'')) =
       ''ConfigMap-c1.yaml''"
    by (simp add: newResource_def exampleItem_def IsList_def yamlFormat_def)
  with ev show ?thesis by blast
qed

text \<open>
  The claim as stated fails: the three members of the list in \<^verbatim>\<open>b.json\<close> are written
  under their kind and name, not under kind, index and input file.
\<close>

theorem expanded_item_filename_counterexample:
  "map_sum id (map resourceFilename)
     (decodeResourceManifest exampleCodecs True ''b.json'' True
        [(''v1 List [c0, c1, c2]'', None)]) =
   Inr [''ConfigMap-c0.json'', ''ConfigMap-c1.json'', ''ConfigMap-c2.json'']"
  by code_simp

text \<open>
  A JSON stream that holds a list, with lists expanded: whatever the encoder returns,
  the result is the resources the expansion left, and never an error.
\<close>

lemma decodeResourceManifest_list_no_error:
  assumes "d \<noteq> []" and "jsonUnmarshal c d = Inr u"
    and "GetAPIVersion u \<noteq> []" and "GetKind u \<noteq> []" and "IsList u"
  shows "decodeResourceManifest c True input True [(d, None)] =
           Inr (fst (fst (expandList (jsonMarshal c) input jsonFormat u 0 [])))"
  using assms
  by (simp add: decodeResourceManifest_def decodeLoop.simps [of c True input True "[(d, None)]"]
      DecodeJSON_def ReadAll_def decodeLoop_exhausted split: prod.splits)

text \<open>
  C4 asks for a hard error when a member of a list cannot be encoded. With an encoder
  that fails on the second of three members, \<^verbatim>\<open>decodeResourceManifest\<close> returns no
  error: it returns the first member alone.
\<close>

theorem decodeResourceManifest_swallows_encode_error:
  "jsonMarshal failingCodecs (exampleItem ''c1'' ''ns2'') = Inl (LibraryError ''unsupported value'') \<and>
   decodeResourceManifest failingCodecs True ''b.json'' True [(''v1 List [c0, c1, c2]'', None)] =
     Inr [newResource 0 ''b.json'' ''v1 ConfigMap c0'' jsonFormat (exampleItem ''c0'' ''ns2'')]"
  by code_simp

end
